theory Spec2Isabelle
  imports Main "HOL-Library.Word" "HOL-Library.AList"
begin

section \<open>JavaScript values\<close>

text \<open>
  Request bodies, configuration objects and message content reach the bridge as parsed
  JSON. A value is one of JavaScript's primitives, an array or a keyed object;
  \<open>JUndefined\<close> is what reading a missing property yields. An object is the list of
  its own properties in insertion order, read with \<open>map_of\<close>; being parsed JSON, none
  of its properties is a function.

  Numbers are the integers from \<open>-2^53\<close> to \<open>2^53 - 1\<close>, a 54-bit word read with
  \<open>sint\<close>: a JavaScript number holds each of them exactly and prints it in decimal.
  Strings are \<open>char\<close> lists, the code units below 256.
\<close>

datatype json =
    JUndefined
  | JNull
  | JBool bool
  | JNum "54 word"
  | JStr string
  | JArr "json list"
  | JObj "(string \<times> json) list"

datatype js_error = TypeError

text \<open>JavaScript truthiness: what \<open>!v\<close>, \<open>v || d\<close> and \<open>v && w\<close> test.\<close>

fun truthy :: "json \<Rightarrow> bool" where
  "truthy JUndefined = False"
| "truthy JNull = False"
| "truthy (JBool b) = b"
| "truthy (JNum n) = (n \<noteq> 0)"
| "truthy (JStr s) = (s \<noteq> [])"
| "truthy (JArr xs) = True"
| "truthy (JObj fs) = True"

fun typeof :: "json \<Rightarrow> string" where
  "typeof JUndefined = ''undefined''"
| "typeof JNull = ''object''"
| "typeof (JBool b) = ''boolean''"
| "typeof (JNum n) = ''number''"
| "typeof (JStr s) = ''string''"
| "typeof (JArr xs) = ''object''"
| "typeof (JObj fs) = ''object''"

text \<open>\<open>a || b\<close> on values.\<close>

definition js_or :: "json \<Rightarrow> json \<Rightarrow> json" where
  "js_or a b = (if truthy a then a else b)"

text \<open>
  \<open>v.k\<close> for a receiver that is neither \<open>null\<close> nor \<open>undefined\<close>: the own property of
  an object, \<open>undefined\<close> otherwise (none of the keys the bridge reads is a built-in
  property of strings, numbers, booleans or arrays).
\<close>

fun dot :: "json \<Rightarrow> string \<Rightarrow> json" where
  "dot (JObj fs) k = (case map_of fs k of Some v \<Rightarrow> v | None \<Rightarrow> JUndefined)"
| "dot v k = JUndefined"

text \<open>\<open>v.k\<close> in general: reading a property of \<open>null\<close> or \<open>undefined\<close> throws.\<close>

definition get :: "json \<Rightarrow> string \<Rightarrow> js_error + json" where
  "get v k = (if v = JNull \<or> v = JUndefined then Inl TypeError else Inr (dot v k))"

subsection \<open>Strings\<close>

text \<open>
  \<open>toLowerCase\<close> on the code units below 256: the letters \<open>A\<close>..\<open>Z\<close> and the
  accented capitals \<open>U+00C0\<close>..\<open>U+00DE\<close> (the multiplication sign \<open>U+00D7\<close> apart)
  move up by 32; every other character is left as it is.
\<close>

definition lower_char :: "char \<Rightarrow> char" where
  "lower_char c =
     (let n = (of_char c :: nat)
      in if (65 \<le> n \<and> n \<le> 90) \<or> (192 \<le> n \<and> n \<le> 222 \<and> n \<noteq> 215)
         then char_of (n + 32) else c)"

definition toLowerCase :: "string \<Rightarrow> string" where
  "toLowerCase s = map lower_char s"

text \<open>\<open>s.lastIndexOf(c)\<close>: the index of the last occurrence, \<open>-1\<close> when there is none.\<close>

fun lastIndexOf_from :: "char \<Rightarrow> string \<Rightarrow> int \<Rightarrow> int \<Rightarrow> int" where
  "lastIndexOf_from c [] i found = found"
| "lastIndexOf_from c (x # xs) i found =
     lastIndexOf_from c xs (i + 1) (if x = c then i else found)"

definition lastIndexOf :: "char \<Rightarrow> string \<Rightarrow> int" where
  "lastIndexOf c s = lastIndexOf_from c s 0 (- 1)"

text \<open>
  Whitespace and line terminators as \<open>trim\<close> and \<open>trimStart\<close> see them, among the
  code units below 256: tab, line feed, vertical tab, form feed, carriage return, space
  and the no-break space \<open>U+00A0\<close>.
\<close>

definition is_space :: "char \<Rightarrow> bool" where
  "is_space c = ((of_char c :: nat) \<in> {9, 10, 11, 12, 13, 32, 160})"

definition trimStart :: "string \<Rightarrow> string" where
  "trimStart s = dropWhile is_space s"

definition trim :: "string \<Rightarrow> string" where
  "trim s = rev (dropWhile is_space (rev (dropWhile is_space s)))"

definition startsWith :: "string \<Rightarrow> string \<Rightarrow> bool" where
  "startsWith s p = (take (length p) s = p)"

text \<open>Decimal digits of a number, for \<open>String(n)\<close>.\<close>

fun show_nat :: "nat \<Rightarrow> string" where
  "show_nat n =
     (if n < 10 then [char_of (48 + n)] else show_nat (n div 10) @ [char_of (48 + n mod 10)])"

definition show_int :: "int \<Rightarrow> string" where
  "show_int i = (if i < 0 then CHR ''-'' # show_nat (nat (- i)) else show_nat (nat i))"

fun join :: "string \<Rightarrow> string list \<Rightarrow> string" where
  "join sep [] = []"
| "join sep [x] = x"
| "join sep (x # y # ys) = x @ sep @ join sep (y # ys)"

text \<open>
  The conversion \<open>ToString\<close>: what a property key, a template literal and the elements
  of a joined array go through. An object is converted by its \<open>toString\<close> method. A
  parsed object inherits the one of \<open>Object.prototype\<close>, which gives
  \<open>[object Object]\<close>, unless it has a property \<open>toString\<close> of its own: that one is
  not a function, the inherited \<open>valueOf\<close> returns the object itself, and the
  conversion throws a \<open>TypeError\<close>. An array is converted by \<open>join\<close>: its elements
  converted in turn, \<open>null\<close> and \<open>undefined\<close> to the empty string, with commas between
  them.
\<close>

fun js_toString :: "json \<Rightarrow> js_error + string"
  and js_toStrings :: "json list \<Rightarrow> js_error + string list" where
  "js_toString JUndefined = Inr ''undefined''"
| "js_toString JNull = Inr ''null''"
| "js_toString (JBool b) = Inr (if b then ''true'' else ''false'')"
| "js_toString (JNum n) = Inr (show_int (sint n))"
| "js_toString (JStr s) = Inr s"
| "js_toString (JArr xs) =
     (case js_toStrings xs of Inl e \<Rightarrow> Inl e | Inr ss \<Rightarrow> Inr (join '','' ss))"
| "js_toString (JObj fs) =
     (if map_of fs ''toString'' = None then Inr ''[object Object]'' else Inl TypeError)"
| "js_toStrings [] = Inr []"
| "js_toStrings (x # xs) =
     (case (if x = JNull \<or> x = JUndefined then Inr [] else js_toString x) of
        Inl e \<Rightarrow> Inl e
      | Inr s \<Rightarrow> (case js_toStrings xs of Inl e \<Rightarrow> Inl e | Inr ss \<Rightarrow> Inr (s # ss)))"

text \<open>\<open>xs.join(sep)\<close> on an array of values.\<close>

definition arrayJoin :: "string \<Rightarrow> json list \<Rightarrow> js_error + string" where
  "arrayJoin sep xs = (case js_toStrings xs of Inl e \<Rightarrow> Inl e | Inr ss \<Rightarrow> Inr (join sep ss))"

text \<open>
  The values \<open>ToString\<close> converts: all but the objects with a \<open>toString\<close> property of
  their own and the arrays that hold such an object, at any depth.
\<close>

fun has_string_form :: "json \<Rightarrow> bool" where
  "has_string_form (JObj fs) = (map_of fs ''toString'' = None)"
| "has_string_form (JArr xs) = list_all has_string_form xs"
| "has_string_form v = True"

text \<open>
  \<open>{ ...v }\<close>: the own enumerable properties of an object; those of an array are its
  elements under their indices, those of a string its characters under theirs. The other
  values have none.
\<close>

fun spread :: "json \<Rightarrow> (string \<times> json) list" where
  "spread (JObj fs) = fs"
| "spread (JArr xs) = zip (map show_nat [0 ..< length xs]) xs"
| "spread (JStr s) = zip (map show_nat [0 ..< length s]) (map (\<lambda>c. JStr [c]) s)"
| "spread v = []"

section \<open>Request-body adapter\<close>

definition DEFAULT_NON_CODEX_FIELDS_TO_REMOVE :: "json list" where
  "DEFAULT_NON_CODEX_FIELDS_TO_REMOVE =
     map JStr [''temperature'', ''top_p'', ''max_output_tokens'', ''user'', ''text_formatting'',
       ''truncation'', ''text'', ''service_tier'', ''prompt_cache_retention'',
       ''safety_identifier'']"

text \<open>
  \<^verbatim>\<open>
  function isNonEmptyString(value) {
    return typeof value === 'string' && value.trim()
  }
  \<close>
  The result is only ever tested for truthiness; the model returns that test.
\<close>

definition isNonEmptyString :: "json \<Rightarrow> bool" where
  "isNonEmptyString v = (case v of JStr s \<Rightarrow> trim s \<noteq> [] | _ \<Rightarrow> False)"

text \<open>
  \<^verbatim>\<open>
  function normalizeInstructionsMode(value) {
    const mode = typeof value === 'string' ? value.toLowerCase() : ''
    if (mode === 'prepend' || mode === 'overwrite' || mode === 'none') return mode
    return 'overwrite'
  }
  function normalizeApplyWhen(value) {
    const when = typeof value === 'string' ? value.toLowerCase() : ''
    if (when === 'all') return 'all'
    return 'non_codex'
  }
  \<close>
\<close>

definition normalizeInstructionsMode :: "json \<Rightarrow> string" where
  "normalizeInstructionsMode v =
     (let mode = (case v of JStr s \<Rightarrow> toLowerCase s | _ \<Rightarrow> [])
      in if mode = ''prepend'' \<or> mode = ''overwrite'' \<or> mode = ''none'' then mode
         else ''overwrite'')"

definition normalizeApplyWhen :: "json \<Rightarrow> string" where
  "normalizeApplyWhen v =
     (let when = (case v of JStr s \<Rightarrow> toLowerCase s | _ \<Rightarrow> [])
      in if when = ''all'' then ''all'' else ''non_codex'')"

record adapter_settings =
  enabled :: bool
  instructions_mode :: string
  instructions_applyWhen :: string
  instructions_text :: json
  stripFields_enabled :: bool
  stripFields_fields :: "json list"

text \<open>
  \<^verbatim>\<open>
  function resolveAdapterConfig(rawConfig, defaultInstructionsText) {
    const safe = rawConfig && typeof rawConfig === 'object' ? rawConfig : {}
    const enabled = safe.enabled !== false
    const instructionsRaw =
      safe.instructions && typeof safe.instructions === 'object' ? safe.instructions : {}
    const stripFieldsRaw =
      safe.stripFields && typeof safe.stripFields === 'object' ? safe.stripFields : {}
    const instructionsMode = normalizeInstructionsMode(instructionsRaw.mode)
    const instructionsApplyWhen = normalizeApplyWhen(instructionsRaw.applyWhen || safe.applyWhen)
    const instructionsText = isNonEmptyString(instructionsRaw.text)
      ? instructionsRaw.text : defaultInstructionsText
    const stripFieldsEnabled = stripFieldsRaw.enabled !== false
    const stripFieldsFields =
      Array.isArray(stripFieldsRaw.fields) && stripFieldsRaw.fields.length > 0
        ? stripFieldsRaw.fields : DEFAULT_NON_CODEX_FIELDS_TO_REMOVE
    return { enabled, instructions: {...}, stripFields: {...} }
  }
  \<close>
\<close>

definition object_or_empty :: "json \<Rightarrow> json" where
  "object_or_empty v = (if truthy v \<and> typeof v = ''object'' then v else JObj [])"

definition resolveAdapterConfig :: "json \<Rightarrow> json \<Rightarrow> adapter_settings" where
  "resolveAdapterConfig rawConfig defaultInstructionsText =
     (let safe = object_or_empty rawConfig;
          instructionsRaw = object_or_empty (dot safe ''instructions'');
          stripFieldsRaw = object_or_empty (dot safe ''stripFields'')
      in \<lparr> enabled = (dot safe ''enabled'' \<noteq> JBool False),
           instructions_mode = normalizeInstructionsMode (dot instructionsRaw ''mode''),
           instructions_applyWhen =
             normalizeApplyWhen (js_or (dot instructionsRaw ''applyWhen'') (dot safe ''applyWhen'')),
           instructions_text =
             (if isNonEmptyString (dot instructionsRaw ''text'')
              then dot instructionsRaw ''text'' else defaultInstructionsText),
           stripFields_enabled = (dot stripFieldsRaw ''enabled'' \<noteq> JBool False),
           stripFields_fields =
             (case dot stripFieldsRaw ''fields'' of
                JArr (f # fs) \<Rightarrow> f # fs
              | _ \<Rightarrow> DEFAULT_NON_CODEX_FIELDS_TO_REMOVE) \<rparr>)"

subsection \<open>The store\<close>

text \<open>
  The adapter copies its argument and writes to the copy, so object identity matters.
  Values live in the cells of a store and a variable holds the address of a cell:
  \<open>===\<close> on two objects compares addresses, \<open>{ ...body }\<close> allocates a cell, an
  assignment to a property and \<open>delete\<close> rewrite the cell of the object they are
  applied to.
\<close>

type_synonym addr = nat
type_synonym store = "json list"

definition alloc :: "store \<Rightarrow> json \<Rightarrow> store \<times> addr" where
  "alloc st v = (st @ [v], length st)"

definition assignProp :: "store \<Rightarrow> addr \<Rightarrow> string \<Rightarrow> json \<Rightarrow> store" where
  "assignProp st a k v = st[a := JObj (AList.update k v (spread (st ! a)))]"

definition deleteProp :: "store \<Rightarrow> addr \<Rightarrow> string \<Rightarrow> store" where
  "deleteProp st a k = st[a := JObj (AList.delete k (spread (st ! a)))]"

text \<open>
  \<open>Object.prototype.hasOwnProperty.call(v, k)\<close> for an object made by parsing or by
  \<open>{ ...body }\<close>, whose own properties are the enumerable ones.
\<close>

definition hasOwnProperty :: "json \<Rightarrow> string \<Rightarrow> bool" where
  "hasOwnProperty v k = (k \<in> fst ` set (spread v))"

record adapter_changes =
  strippedFields :: "json list"
  changes_instructions :: json

record adapter_result =
  result_body :: addr
  result_applied :: bool
  result_changes :: adapter_changes

text \<open>
  \<^verbatim>\<open>
  for (const field of settings.stripFields.fields) {
    if (Object.prototype.hasOwnProperty.call(processedBody, field)) {
      delete processedBody[field]
      changes.strippedFields.push(field)
    }
  }
  \<close>
  \<open>hasOwnProperty\<close> and \<open>delete\<close> convert \<open>field\<close> to a property key; a field
  that has no string form makes the conversion throw, which ends the loop and the call.
\<close>

fun stripFieldsLoop ::
  "json list \<Rightarrow> addr \<Rightarrow> store \<times> json list \<Rightarrow> store \<times> (js_error + json list)" where
  "stripFieldsLoop [] processedBody (st, stripped) = (st, Inr stripped)"
| "stripFieldsLoop (field # rest) processedBody (st, stripped) =
     (case js_toString field of
        Inl e \<Rightarrow> (st, Inl e)
      | Inr key \<Rightarrow>
          if hasOwnProperty (st ! processedBody) key
          then stripFieldsLoop rest processedBody
                 (deleteProp st processedBody key, stripped @ [field])
          else stripFieldsLoop rest processedBody (st, stripped))"

text \<open>
  The loop runs for clients other than the Codex CLI, when stripping is enabled:
  \<^verbatim>\<open>
  // Field stripping stays scoped to non-Codex clients to avoid breaking Codex CLI.
  if (!isCodexCLI && settings.stripFields.enabled) { for (...) {...} }
  \<close>
  The result is the store and the fields pushed to \<open>changes.strippedFields\<close>, or the
  error thrown.
\<close>

definition stripFields ::
  "store \<Rightarrow> addr \<Rightarrow> bool \<Rightarrow> adapter_settings \<Rightarrow> store \<times> (js_error + json list)" where
  "stripFields st processedBody isCodexCLI settings =
     (if \<not> isCodexCLI \<and> stripFields_enabled settings
      then stripFieldsLoop (stripFields_fields settings) processedBody (st, [])
      else (st, Inr []))"

text \<open>
  The instruction step of \<open>adaptCodexRequestBody\<close> (the body of
  \<open>if (scopeAllowsInstructions && hasServerInstructions)\<close>): the store after it and
  the annotation left in \<open>changes.instructions\<close>.
  \<^verbatim>\<open>
  if (settings.instructions.mode === 'overwrite') {
    processedBody.instructions = settings.instructions.text
    changes.instructions = { mode: 'overwrite' }
  } else if (settings.instructions.mode === 'prepend') {
    const alreadyPresent =
      clientInstructions.startsWith(settings.instructions.text) ||
      clientInstructions.trimStart().startsWith(settings.instructions.text)
    if (hasClientInstructions && alreadyPresent) {
      processedBody.instructions = body.instructions
      changes.instructions = { mode: 'prepend', alreadyPresent: true }
    } else if (hasClientInstructions) {
      processedBody.instructions = `${settings.instructions.text}\n\n${clientInstructions}`
      changes.instructions = { mode: 'prepend', alreadyPresent: false }
    } else {
      processedBody.instructions = settings.instructions.text
      changes.instructions = { mode: 'prepend', alreadyPresent: false, clientMissing: true }
    }
  } else if (settings.instructions.mode === 'none') {
    if (!hasClientInstructions) {
      processedBody.instructions = settings.instructions.text
      changes.instructions = { mode: 'none', clientMissing: true, fallback: true }
    }
  }
  \<close>
  The step runs under \<open>hasServerInstructions\<close>, so \<open>settings.instructions.text\<close> is a
  string in it: \<open>serverText\<close> holds its characters.
\<close>

definition applyInstructions ::
  "store \<Rightarrow> addr \<Rightarrow> addr \<Rightarrow> adapter_settings \<Rightarrow> string \<Rightarrow> string \<Rightarrow> bool \<Rightarrow> store \<times> json" where
  "applyInstructions st body processedBody settings serverText clientInstructions
       hasClientInstructions =
     (if instructions_mode settings = ''overwrite'' then
        (assignProp st processedBody ''instructions'' (JStr serverText),
         JObj [(''mode'', JStr ''overwrite'')])
      else if instructions_mode settings = ''prepend'' then
        (let alreadyPresent =
               (startsWith clientInstructions serverText \<or>
                startsWith (trimStart clientInstructions) serverText)
         in if hasClientInstructions \<and> alreadyPresent then
              (assignProp st processedBody ''instructions'' (dot (st ! body) ''instructions''),
               JObj [(''mode'', JStr ''prepend''), (''alreadyPresent'', JBool True)])
            else if hasClientInstructions then
              (assignProp st processedBody ''instructions''
                 (JStr (serverText @ [CHR 0x0A, CHR 0x0A] @ clientInstructions)),
               JObj [(''mode'', JStr ''prepend''), (''alreadyPresent'', JBool False)])
            else
              (assignProp st processedBody ''instructions'' (JStr serverText),
               JObj [(''mode'', JStr ''prepend''), (''alreadyPresent'', JBool False),
                     (''clientMissing'', JBool True)]))
      else if instructions_mode settings = ''none'' then
        (if \<not> hasClientInstructions then
           (assignProp st processedBody ''instructions'' (JStr serverText),
            JObj [(''mode'', JStr ''none''), (''clientMissing'', JBool True),
                  (''fallback'', JBool True)])
         else (st, JNull))
      else (st, JNull))"

text \<open>
  \<^verbatim>\<open>
  function adaptCodexRequestBody(body, { isCodexCLI, adapterConfig, defaultInstructionsText }) {
    if (!body || typeof body !== 'object') {
      return { body, applied: false, changes: { strippedFields: [], instructions: null } }
    }
    const settings = resolveAdapterConfig(adapterConfig, defaultInstructionsText)
    const changes = { strippedFields: [], instructions: null }
    if (!settings.enabled) {
      return { body, applied: false, changes }
    }
    const processedBody = { ...body }
    if (!isCodexCLI && settings.stripFields.enabled) { ...the loop above... }
    const scopeAllowsInstructions = settings.instructions.applyWhen === 'all' || !isCodexCLI
    const hasServerInstructions = isNonEmptyString(settings.instructions.text)
    const clientInstructions = typeof body.instructions === 'string' ? body.instructions : ''
    const hasClientInstructions = isNonEmptyString(clientInstructions)
    if (scopeAllowsInstructions && hasServerInstructions) { ...the step above... }
    const applied = changes.strippedFields.length > 0 || changes.instructions !== null
    return { body: processedBody, applied, changes }
  }
  \<close>
  \<open>body\<close> is the address of the argument in the store \<open>st\<close>; the result is the store
  after the call and either the returned object, whose \<open>body\<close> is an address again, or
  the error the strip loop threw. \<open>instructionStep\<close> is the statement
  \<open>if (scopeAllowsInstructions && hasServerInstructions) {...}\<close>: its test holds of a
  string only.
\<close>

definition instructionStep ::
  "store \<Rightarrow> addr \<Rightarrow> addr \<Rightarrow> adapter_settings \<Rightarrow> bool \<Rightarrow> string \<Rightarrow> bool \<Rightarrow> store \<times> json" where
  "instructionStep st body processedBody settings scopeAllowsInstructions clientInstructions
       hasClientInstructions =
     (case instructions_text settings of
        JStr serverText \<Rightarrow>
          if scopeAllowsInstructions \<and> isNonEmptyString (JStr serverText)
          then applyInstructions st body processedBody settings serverText clientInstructions
                 hasClientInstructions
          else (st, JNull)
      | _ \<Rightarrow> (st, JNull))"

definition adaptCodexRequestBody ::
  "store \<Rightarrow> addr \<Rightarrow> bool \<Rightarrow> json \<Rightarrow> json \<Rightarrow> store \<times> (js_error + adapter_result)" where
  "adaptCodexRequestBody st body isCodexCLI adapterConfig defaultInstructionsText =
     (if \<not> truthy (st ! body) \<or> typeof (st ! body) \<noteq> ''object'' then
        (st, Inr \<lparr> result_body = body, result_applied = False,
                   result_changes = \<lparr> strippedFields = [], changes_instructions = JNull \<rparr> \<rparr>)
      else
        let settings = resolveAdapterConfig adapterConfig defaultInstructionsText in
        if \<not> enabled settings then
          (st, Inr \<lparr> result_body = body, result_applied = False,
                     result_changes = \<lparr> strippedFields = [], changes_instructions = JNull \<rparr> \<rparr>)
        else
          let (st1, processedBody) = alloc st (JObj (spread (st ! body)));
              (st2, strip) = stripFields st1 processedBody isCodexCLI settings
          in case strip of
               Inl e \<Rightarrow> (st2, Inl e)
             | Inr stripped \<Rightarrow>
                 let scopeAllowsInstructions =
                       (instructions_applyWhen settings = ''all'' \<or> \<not> isCodexCLI);
                     clientInstructions =
                       (case dot (st2 ! body) ''instructions'' of JStr s \<Rightarrow> s | _ \<Rightarrow> []);
                     hasClientInstructions = isNonEmptyString (JStr clientInstructions);
                     (st3, annotation) =
                       instructionStep st2 body processedBody settings scopeAllowsInstructions
                         clientInstructions hasClientInstructions
                 in (st3, Inr \<lparr> result_body = processedBody,
                        result_applied = (length stripped > 0 \<or> annotation \<noteq> JNull),
                        result_changes =
                          \<lparr> strippedFields = stripped, changes_instructions = annotation \<rparr> \<rparr>))"

text \<open>
  The calls that return: those that stop before the strip loop, those that skip it, and
  those whose configured fields all have a string form.
\<close>

definition adapterReturns :: "json \<Rightarrow> bool \<Rightarrow> adapter_settings \<Rightarrow> bool" where
  "adapterReturns bodyValue isCodexCLI settings =
     (\<not> truthy bodyValue \<or> typeof bodyValue \<noteq> ''object'' \<or> \<not> enabled settings \<or>
      isCodexCLI \<or> \<not> stripFields_enabled settings \<or>
      list_all has_string_form (stripFields_fields settings))"

subsection \<open>The vendored copy of the adapter\<close>

text \<open>
  The repository holds a second copy of \<open>codexRequestAdapter.js\<close>. It differs from the
  one above in the instruction step only: mode \<open>none\<close> switches the step off.
  \<^verbatim>\<open>
  const shouldApplyInstructions =
    settings.instructions.mode !== 'none' &&
    isNonEmptyString(settings.instructions.text) &&
    (settings.instructions.applyWhen === 'all' || !isCodexCLI)
  if (shouldApplyInstructions) {
    if (settings.instructions.mode === 'overwrite') {
      processedBody.instructions = settings.instructions.text
      changes.instructions = { mode: 'overwrite' }
    } else if (settings.instructions.mode === 'prepend') {
      const clientText = typeof body.instructions === 'string' ? body.instructions : ''
      const alreadyPresent =
        clientText.startsWith(settings.instructions.text) ||
        clientText.trimStart().startsWith(settings.instructions.text)
      if (clientText && alreadyPresent) {
        processedBody.instructions = body.instructions
        changes.instructions = { mode: 'prepend', alreadyPresent: true }
      } else if (clientText && clientText.trim()) {
        processedBody.instructions = `${settings.instructions.text}\n\n${clientText}`
        changes.instructions = { mode: 'prepend', alreadyPresent: false }
      } else {
        processedBody.instructions = settings.instructions.text
        changes.instructions = { mode: 'prepend', alreadyPresent: false, clientMissing: true }
      }
    }
  }
  \<close>
\<close>

definition applyInstructions_vendored ::
  "store \<Rightarrow> addr \<Rightarrow> addr \<Rightarrow> adapter_settings \<Rightarrow> string \<Rightarrow> store \<times> json" where
  "applyInstructions_vendored st body processedBody settings serverText =
     (if instructions_mode settings = ''overwrite'' then
        (assignProp st processedBody ''instructions'' (JStr serverText),
         JObj [(''mode'', JStr ''overwrite'')])
      else if instructions_mode settings = ''prepend'' then
        (let clientText = (case dot (st ! body) ''instructions'' of JStr s \<Rightarrow> s | _ \<Rightarrow> []);
             alreadyPresent =
               (startsWith clientText serverText \<or>
                startsWith (trimStart clientText) serverText)
         in if clientText \<noteq> [] \<and> alreadyPresent then
              (assignProp st processedBody ''instructions'' (dot (st ! body) ''instructions''),
               JObj [(''mode'', JStr ''prepend''), (''alreadyPresent'', JBool True)])
            else if clientText \<noteq> [] \<and> trim clientText \<noteq> [] then
              (assignProp st processedBody ''instructions''
                 (JStr (serverText @ [CHR 0x0A, CHR 0x0A] @ clientText)),
               JObj [(''mode'', JStr ''prepend''), (''alreadyPresent'', JBool False)])
            else
              (assignProp st processedBody ''instructions'' (JStr serverText),
               JObj [(''mode'', JStr ''prepend''), (''alreadyPresent'', JBool False),
                     (''clientMissing'', JBool True)]))
      else (st, JNull))"

definition instructionStep_vendored ::
  "store \<Rightarrow> addr \<Rightarrow> addr \<Rightarrow> adapter_settings \<Rightarrow> bool \<Rightarrow> store \<times> json" where
  "instructionStep_vendored st body processedBody settings isCodexCLI =
     (case instructions_text settings of
        JStr serverText \<Rightarrow>
          if instructions_mode settings \<noteq> ''none'' \<and> isNonEmptyString (JStr serverText) \<and>
             (instructions_applyWhen settings = ''all'' \<or> \<not> isCodexCLI)
          then applyInstructions_vendored st body processedBody settings serverText
          else (st, JNull)
      | _ \<Rightarrow> (st, JNull))"

definition adaptCodexRequestBody_vendored ::
  "store \<Rightarrow> addr \<Rightarrow> bool \<Rightarrow> json \<Rightarrow> json \<Rightarrow> store \<times> (js_error + adapter_result)" where
  "adaptCodexRequestBody_vendored st body isCodexCLI adapterConfig defaultInstructionsText =
     (if \<not> truthy (st ! body) \<or> typeof (st ! body) \<noteq> ''object'' then
        (st, Inr \<lparr> result_body = body, result_applied = False,
                   result_changes = \<lparr> strippedFields = [], changes_instructions = JNull \<rparr> \<rparr>)
      else
        let settings = resolveAdapterConfig adapterConfig defaultInstructionsText in
        if \<not> enabled settings then
          (st, Inr \<lparr> result_body = body, result_applied = False,
                     result_changes = \<lparr> strippedFields = [], changes_instructions = JNull \<rparr> \<rparr>)
        else
          let (st1, processedBody) = alloc st (JObj (spread (st ! body)));
              (st2, strip) = stripFields st1 processedBody isCodexCLI settings
          in case strip of
               Inl e \<Rightarrow> (st2, Inl e)
             | Inr stripped \<Rightarrow>
                 let (st3, annotation) =
                       instructionStep_vendored st2 body processedBody settings isCodexCLI
                 in (st3, Inr \<lparr> result_body = processedBody,
                        result_applied = (length stripped > 0 \<or> annotation \<noteq> JNull),
                        result_changes =
                          \<lparr> strippedFields = stripped, changes_instructions = annotation \<rparr> \<rparr>))"

section \<open>Request translation: tool choice\<close>

text \<open>
  \<^verbatim>\<open>
  function convertToolChoiceToCodex(toolChoice) {
    if (!toolChoice) return undefined
    if (typeof toolChoice === 'string') {
      if (toolChoice === 'auto') return 'auto'
      if (toolChoice === 'any') return 'required'
      if (toolChoice === 'none') return 'none'
      return toolChoice
    }
    if (typeof toolChoice === 'object') {
      if (toolChoice.type === 'auto') return 'auto'
      if (toolChoice.type === 'any') return 'required'
      if (toolChoice.type === 'tool' && toolChoice.name) {
        return { type: 'function', name: toolChoice.name }
      }
    }
    return undefined
  }
  \<close>
\<close>

definition convertToolChoiceToCodex :: "json \<Rightarrow> json" where
  "convertToolChoiceToCodex toolChoice =
     (if \<not> truthy toolChoice then JUndefined
      else if typeof toolChoice = ''string'' then
        (if toolChoice = JStr ''auto'' then JStr ''auto''
         else if toolChoice = JStr ''any'' then JStr ''required''
         else if toolChoice = JStr ''none'' then JStr ''none''
         else toolChoice)
      else if typeof toolChoice = ''object'' then
        (if dot toolChoice ''type'' = JStr ''auto'' then JStr ''auto''
         else if dot toolChoice ''type'' = JStr ''any'' then JStr ''required''
         else if dot toolChoice ''type'' = JStr ''tool'' \<and> truthy (dot toolChoice ''name'')
           then JObj [(''type'', JStr ''function''), (''name'', dot toolChoice ''name'')]
         else JUndefined)
      else JUndefined)"

text \<open>
  The step of \<open>convertAnthropicRequestToCodex\<close> that stores the converted choice in
  the outbound body:
  \<^verbatim>\<open>
  const toolChoice = convertToolChoiceToCodex(body.tool_choice)
  ...
  if (toolChoice !== undefined) {
    codexBody.tool_choice = toolChoice
  }
  \<close>
\<close>

definition assignToolChoice :: "json \<Rightarrow> (string \<times> json) list \<Rightarrow> (string \<times> json) list" where
  "assignToolChoice body codexBody =
     (let toolChoice = convertToolChoiceToCodex (dot body ''tool_choice'')
      in if toolChoice \<noteq> JUndefined
         then AList.update ''tool_choice'' toolChoice codexBody
         else codexBody)"

section \<open>Model-name parser\<close>

definition KNOWN_REASONING_EFFORTS :: "string set" where
  "KNOWN_REASONING_EFFORTS = {''low'', ''medium'', ''high'', ''xhigh''}"

text \<open>
  \<^verbatim>\<open>
  function parseModelWithReasoning(modelName) {
    if (!modelName || typeof modelName !== 'string') {
      return { actualModel: modelName || '', reasoningEffort: null }
    }
    const lastDash = modelName.lastIndexOf('-')
    if (lastDash <= 0) {
      return { actualModel: modelName, reasoningEffort: null }
    }
    const suffix = modelName.slice(lastDash + 1).toLowerCase()
    if (KNOWN_REASONING_EFFORTS.has(suffix)) {
      return { actualModel: modelName.slice(0, lastDash), reasoningEffort: suffix }
    }
    return { actualModel: modelName, reasoningEffort: null }
  }
  \<close>
  The result is the pair \<open>(actualModel, reasoningEffort)\<close>, with \<open>None\<close> for \<open>null\<close>.
\<close>

definition parseModelWithReasoning :: "json \<Rightarrow> json \<times> string option" where
  "parseModelWithReasoning modelName =
     (case modelName of
        JStr s \<Rightarrow>
          if \<not> truthy modelName then (js_or modelName (JStr ''''), None)
          else
            let lastDash = lastIndexOf CHR ''-'' s in
            if lastDash \<le> 0 then (modelName, None)
            else
              let suffix = toLowerCase (drop (nat (lastDash + 1)) s) in
              if suffix \<in> KNOWN_REASONING_EFFORTS
              then (JStr (take (nat lastDash) s), Some suffix)
              else (modelName, None)
      | _ \<Rightarrow> (js_or modelName (JStr ''''), None))"

section \<open>Random identifiers\<close>

text \<open>
  \<open>crypto.randomBytes(n)\<close> draws \<open>n\<close> bytes from the system's entropy. The source of
  entropy is an unknown tape of bytes and a cursor on it; each call reads the next \<open>n\<close>
  bytes and moves the cursor. \<open>toString('hex')\<close> writes every byte as two lower-case
  hexadecimal digits.
\<close>

record rng =
  tape :: "nat \<Rightarrow> 8 word"
  cursor :: nat

definition randomBytes :: "nat \<Rightarrow> rng \<Rightarrow> 8 word list \<times> rng" where
  "randomBytes n g = (map (tape g) [cursor g ..< cursor g + n], g\<lparr>cursor := cursor g + n\<rparr>)"

definition hex_digit :: "nat \<Rightarrow> char" where
  "hex_digit n = ''0123456789abcdef'' ! n"

definition hex_byte :: "8 word \<Rightarrow> string" where
  "hex_byte b = [hex_digit (unat b div 16), hex_digit (unat b mod 16)]"

definition toHex :: "8 word list \<Rightarrow> string" where
  "toHex bs = concat (map hex_byte bs)"

text \<open>
  \<^verbatim>\<open>
  function generateCodexCallId() {
    return `call_${crypto.randomBytes(12).toString('hex')}`
  }
  \<close>
  and the two identifiers minted inline, \<open>`toolu_${crypto.randomBytes(12).toString('hex')}`\<close>
  and \<open>`msg_${crypto.randomBytes(16).toString('hex')}`\<close>.
\<close>

definition generateCodexCallId :: "rng \<Rightarrow> string \<times> rng" where
  "generateCodexCallId g = (let (bs, g') = randomBytes 12 g in (''call_'' @ toHex bs, g'))"

definition generateTooluId :: "rng \<Rightarrow> string \<times> rng" where
  "generateTooluId g = (let (bs, g') = randomBytes 12 g in (''toolu_'' @ toHex bs, g'))"

definition generateMessageId :: "rng \<Rightarrow> string \<times> rng" where
  "generateMessageId g = (let (bs, g') = randomBytes 16 g in (''msg_'' @ toHex bs, g'))"

section \<open>Upstream payloads and client events\<close>

text \<open>
  The events of the upstream stream follow the schema of the Responses API; a field that
  may be missing is an \<open>option\<close>, and token counts are integers.
\<close>

record codex_summary_part =
  summary_text :: "string option"

record codex_content_part =
  part_type :: "string option"
  part_text :: "string option"

record codex_item =
  item_type :: "string option"
  item_call_id :: "string option"
  item_name :: "string option"
  item_arguments :: "string option"
  item_summary :: "codex_summary_part list option"
  item_content :: "codex_content_part list option"

record codex_input_tokens_details =
  cached_tokens :: "int option"

record codex_usage =
  input_tokens :: "int option"
  output_tokens :: "int option"
  input_tokens_details :: "codex_input_tokens_details option"

record codex_incomplete_details =
  incomplete_reason :: "string option"

record codex_response =
  response_status :: "string option"
  response_incomplete_details :: "codex_incomplete_details option"
  response_output :: "codex_item list option"
  response_usage :: "codex_usage option"

record codex_event =
  event_type :: "string option"
  event_item :: "codex_item option"
  event_part :: "codex_content_part option"
  event_delta :: "string option"
  event_response :: "codex_response option"

text \<open>\<open>s || ''\<close> and \<open>n || 0\<close> on fields that may be missing.\<close>

definition str_or_empty :: "string option \<Rightarrow> string" where
  "str_or_empty s = (case s of Some t \<Rightarrow> t | None \<Rightarrow> [])"

definition num_or_zero :: "int option \<Rightarrow> int" where
  "num_or_zero n = (case n of Some k \<Rightarrow> k | None \<Rightarrow> 0)"

text \<open>What the bridge sends to the client: the content blocks and the events of a stream.\<close>

datatype content_block =
    Thinking string
  | Text string
  | ToolUse json "string option" json

datatype block_delta =
    ThinkingDelta string
  | TextDelta string
  | InputJsonDelta string

record anthropic_usage =
  usage_input_tokens :: int
  usage_output_tokens :: int
  usage_cache_creation_input_tokens :: int
  usage_cache_read_input_tokens :: int

datatype anthropic_event =
    MessageStart string string anthropic_usage
  | ContentBlockStart nat content_block
  | ContentBlockDelta nat block_delta
  | ContentBlockStop nat
  | MessageDelta string anthropic_usage
  | MessageStop

definition CODEX_RESPONSE_MODEL_ALIAS :: string where
  "CODEX_RESPONSE_MODEL_ALIAS = ''claude-sonnet-4-20250514''"

text \<open>
  \<open>response.usage\<close>, read the same way by the streaming converter and by the
  non-streaming translator:
  \<^verbatim>\<open>
  const usage = response.usage || {}
  ... usage.input_tokens || 0
  ... usage.output_tokens || 0
  const inputTokensDetails = usage.input_tokens_details || {}
  ... inputTokensDetails.cached_tokens || 0
  \<close>
\<close>

definition usageInputTokens :: "codex_response \<Rightarrow> int" where
  "usageInputTokens response =
     (case response_usage response of None \<Rightarrow> 0 | Some u \<Rightarrow> num_or_zero (input_tokens u))"

definition usageOutputTokens :: "codex_response \<Rightarrow> int" where
  "usageOutputTokens response =
     (case response_usage response of None \<Rightarrow> 0 | Some u \<Rightarrow> num_or_zero (output_tokens u))"

definition usageCachedTokens :: "codex_response \<Rightarrow> int" where
  "usageCachedTokens response =
     (case response_usage response of
        None \<Rightarrow> 0
      | Some u \<Rightarrow>
          (case input_tokens_details u of None \<Rightarrow> 0 | Some d \<Rightarrow> num_or_zero (cached_tokens d)))"

section \<open>Streaming converter\<close>

text \<open>
  The state of a \<open>CodexToAnthropicStreamConverter\<close>. \<open>res\<close> is the client's response
  stream: the events written to it so far, oldest first. \<open>toolIdMap\<close> is the map the
  request translator built, as its entries in insertion order.
\<close>

record converter =
  res :: "anthropic_event list"
  toolIdMap :: "(json \<times> string) list"
  currentBlockIndex :: nat
  messageId :: string
  inputTokens :: int
  outputTokens :: int
  cacheReadInputTokens :: int
  messageStartSent :: bool
  currentFunctionCallId :: "string option"
  currentFunctionCallName :: "string option"
  entropy :: rng

text \<open>
  \<^verbatim>\<open>
  function writeAnthropicSseEvent(res, event, data) {
    res.write(`event: ${event}\n`)
    res.write(`data: ${JSON.stringify(data)}\n\n`)
  }
  \<close>
\<close>

definition writeAnthropicSseEvent :: "anthropic_event \<Rightarrow> converter \<Rightarrow> converter" where
  "writeAnthropicSseEvent e c = c\<lparr>res := res c @ [e]\<rparr>"

text \<open>The constructor.\<close>

definition newConverter :: "rng \<Rightarrow> (json \<times> string) list \<Rightarrow> converter" where
  "newConverter g m =
     (let (mid, g') = generateMessageId g
      in \<lparr> res = [], toolIdMap = m, currentBlockIndex = 0, messageId = mid,
           inputTokens = 0, outputTokens = 0, cacheReadInputTokens = 0,
           messageStartSent = False, currentFunctionCallId = None,
           currentFunctionCallName = None, entropy = g' \<rparr>)"

text \<open>
  \<^verbatim>\<open>
  _ensureMessageStart() {
    if (this.messageStartSent) return
    this.messageStartSent = true
    writeAnthropicSseEvent(this.res, 'message_start', { type: 'message_start', message: {
      id: this.messageId, type: 'message', role: 'assistant', model: CODEX_RESPONSE_MODEL_ALIAS,
      content: [], stop_reason: null, stop_sequence: null,
      usage: { input_tokens: 0, output_tokens: 0,
               cache_creation_input_tokens: 0, cache_read_input_tokens: 0 } } })
  }
  \<close>
\<close>

definition ensureMessageStart :: "converter \<Rightarrow> converter" where
  "ensureMessageStart c =
     (if messageStartSent c then c
      else writeAnthropicSseEvent
             (MessageStart (messageId c) CODEX_RESPONSE_MODEL_ALIAS
                \<lparr> usage_input_tokens = 0, usage_output_tokens = 0,
                  usage_cache_creation_input_tokens = 0, usage_cache_read_input_tokens = 0 \<rparr>)
             (c\<lparr>messageStartSent := True\<rparr>))"

text \<open>
  \<^verbatim>\<open>
  _getAnthropicToolId(codexCallId) {
    for (const [anthropicId, mappedCodexId] of this.toolIdMap.entries()) {
      if (mappedCodexId === codexCallId) return anthropicId
    }
    return null
  }
  \<close>
\<close>

fun getAnthropicToolId :: "(json \<times> string) list \<Rightarrow> string option \<Rightarrow> json" where
  "getAnthropicToolId [] codexCallId = JNull"
| "getAnthropicToolId ((anthropicId, mappedCodexId) # entries) codexCallId =
     (if Some mappedCodexId = codexCallId then anthropicId
      else getAnthropicToolId entries codexCallId)"

text \<open>
  \<^verbatim>\<open>
  _handleOutputItemAdded(event) {
    this._ensureMessageStart()
    const item = event.item || {}
    if (item.type === 'function_call') {
      this.currentFunctionCallId = item.call_id
      this.currentFunctionCallName = item.name
      const anthropicId =
        this._getAnthropicToolId(item.call_id) || `toolu_${crypto.randomBytes(12).toString('hex')}`
      writeAnthropicSseEvent(this.res, 'content_block_start', {
        type: 'content_block_start', index: this.currentBlockIndex,
        content_block: { type: 'tool_use', id: anthropicId, name: item.name || '', input: {} } })
    }
  }
  \<close>
\<close>

definition handleOutputItemAdded :: "codex_event \<Rightarrow> converter \<Rightarrow> converter" where
  "handleOutputItemAdded event c0 =
     (let c = ensureMessageStart c0 in
      case event_item event of
        None \<Rightarrow> c
      | Some item \<Rightarrow>
          if item_type item = Some ''function_call'' then
            (let c1 = c\<lparr>currentFunctionCallId := item_call_id item,
                        currentFunctionCallName := item_name item\<rparr>;
                 found = getAnthropicToolId (toolIdMap c1) (item_call_id item);
                 (anthropicId, g) =
                   (if truthy found then (found, entropy c1)
                    else (let (fresh, g') = generateTooluId (entropy c1) in (JStr fresh, g')))
             in writeAnthropicSseEvent
                  (ContentBlockStart (currentBlockIndex c1)
                     (ToolUse anthropicId (Some (str_or_empty (item_name item))) (JObj [])))
                  (c1\<lparr>entropy := g\<rparr>))
          else c)"

text \<open>
  \<^verbatim>\<open>
  _handleReasoningSummaryPartAdded() {
    this._ensureMessageStart()
    writeAnthropicSseEvent(this.res, 'content_block_start', { type: 'content_block_start',
      index: this.currentBlockIndex, content_block: { type: 'thinking', thinking: '' } })
  }
  _handleReasoningSummaryTextDelta(event) {
    const delta = event.delta || ''
    if (delta) {
      writeAnthropicSseEvent(this.res, 'content_block_delta', { type: 'content_block_delta',
        index: this.currentBlockIndex, delta: { type: 'thinking_delta', thinking: delta } })
    }
  }
  _handleContentPartAdded(event) {
    this._ensureMessageStart()
    const part = event.part || {}
    if (part.type === 'output_text') {
      writeAnthropicSseEvent(this.res, 'content_block_start', { type: 'content_block_start',
        index: this.currentBlockIndex, content_block: { type: 'text', text: '' } })
    }
  }
  _handleOutputTextDelta(event)             // as the reasoning delta, with 'text_delta'
  _handleFunctionCallArgumentsDelta(event)  // as the reasoning delta, with 'input_json_delta'
  \<close>
\<close>

definition handleReasoningSummaryPartAdded :: "converter \<Rightarrow> converter" where
  "handleReasoningSummaryPartAdded c0 =
     (let c = ensureMessageStart c0
      in writeAnthropicSseEvent (ContentBlockStart (currentBlockIndex c) (Thinking [])) c)"

definition handleReasoningSummaryTextDelta :: "codex_event \<Rightarrow> converter \<Rightarrow> converter" where
  "handleReasoningSummaryTextDelta event c =
     (let delta = str_or_empty (event_delta event)
      in if delta \<noteq> []
         then writeAnthropicSseEvent (ContentBlockDelta (currentBlockIndex c) (ThinkingDelta delta)) c
         else c)"

definition handleContentPartAdded :: "codex_event \<Rightarrow> converter \<Rightarrow> converter" where
  "handleContentPartAdded event c0 =
     (let c = ensureMessageStart c0 in
      case event_part event of
        None \<Rightarrow> c
      | Some part \<Rightarrow>
          if part_type part = Some ''output_text''
          then writeAnthropicSseEvent (ContentBlockStart (currentBlockIndex c) (Text [])) c
          else c)"

definition handleOutputTextDelta :: "codex_event \<Rightarrow> converter \<Rightarrow> converter" where
  "handleOutputTextDelta event c =
     (let delta = str_or_empty (event_delta event)
      in if delta \<noteq> []
         then writeAnthropicSseEvent (ContentBlockDelta (currentBlockIndex c) (TextDelta delta)) c
         else c)"

definition handleFunctionCallArgumentsDelta :: "codex_event \<Rightarrow> converter \<Rightarrow> converter" where
  "handleFunctionCallArgumentsDelta event c =
     (let delta = str_or_empty (event_delta event)
      in if delta \<noteq> []
         then writeAnthropicSseEvent
                (ContentBlockDelta (currentBlockIndex c) (InputJsonDelta delta)) c
         else c)"

text \<open>
  \<^verbatim>\<open>
  _handleBlockStop() {
    writeAnthropicSseEvent(this.res, 'content_block_stop',
      { type: 'content_block_stop', index: this.currentBlockIndex })
    this.currentBlockIndex++
  }
  _handleOutputItemDone(event) {
    const item = event.item || {}
    if (item.type === 'function_call') {
      this._handleBlockStop()
      this.currentFunctionCallId = null
      this.currentFunctionCallName = null
    }
  }
  \<close>
\<close>

definition handleBlockStop :: "converter \<Rightarrow> converter" where
  "handleBlockStop c =
     (let c1 = writeAnthropicSseEvent (ContentBlockStop (currentBlockIndex c)) c
      in c1\<lparr>currentBlockIndex := currentBlockIndex c1 + 1\<rparr>)"

definition handleOutputItemDone :: "codex_event \<Rightarrow> converter \<Rightarrow> converter" where
  "handleOutputItemDone event c =
     (case event_item event of
        None \<Rightarrow> c
      | Some item \<Rightarrow>
          if item_type item = Some ''function_call''
          then (handleBlockStop c)\<lparr>currentFunctionCallId := None, currentFunctionCallName := None\<rparr>
          else c)"

text \<open>
  The stop reason of the streaming path:
  \<^verbatim>\<open>
  let stopReason = 'end_turn'
  if (response.status === 'incomplete' &&
      response.incomplete_details?.reason === 'max_output_tokens') {
    stopReason = 'max_tokens'
  }
  const hasToolUse = (response.output || []).some((item) => item.type === 'function_call')
  if (hasToolUse) {
    stopReason = 'tool_use'
  }
  \<close>
\<close>

definition isIncompleteMaxOutputTokens :: "codex_response \<Rightarrow> bool" where
  "isIncompleteMaxOutputTokens response =
     (response_status response = Some ''incomplete'' \<and>
      (case response_incomplete_details response of
         None \<Rightarrow> False
       | Some d \<Rightarrow> incomplete_reason d = Some ''max_output_tokens''))"

definition streamStopReason :: "codex_response \<Rightarrow> string" where
  "streamStopReason response =
     (let stopReason =
            (if isIncompleteMaxOutputTokens response then ''max_tokens'' else ''end_turn'');
          hasToolUse =
            list_ex (\<lambda>item. item_type item = Some ''function_call'')
              (case response_output response of Some items \<Rightarrow> items | None \<Rightarrow> [])
      in if hasToolUse then ''tool_use'' else stopReason)"

text \<open>
  \<^verbatim>\<open>
  _handleResponseCompleted(event) {
    const response = event.response || {}
    const usage = response.usage || {}
    this.inputTokens = usage.input_tokens || 0
    this.outputTokens = usage.output_tokens || 0
    const inputTokensDetails = usage.input_tokens_details || {}
    this.cacheReadInputTokens = inputTokensDetails.cached_tokens || 0
    ...stopReason as above...
    writeAnthropicSseEvent(this.res, 'message_delta', {
      type: 'message_delta',
      delta: { stop_reason: stopReason, stop_sequence: null },
      usage: {
        input_tokens: this.inputTokens - this.cacheReadInputTokens,
        output_tokens: this.outputTokens,
        cache_read_input_tokens: this.cacheReadInputTokens,
        cache_creation_input_tokens: 0 } })
    writeAnthropicSseEvent(this.res, 'message_stop', { type: 'message_stop' })
  }
  \<close>
\<close>

definition emptyResponse :: codex_response where
  "emptyResponse = \<lparr> response_status = None, response_incomplete_details = None, response_output = None,
       response_usage = None \<rparr>"

definition handleResponseCompleted :: "codex_event \<Rightarrow> converter \<Rightarrow> converter" where
  "handleResponseCompleted event c0 =
     (let response = (case event_response event of Some r \<Rightarrow> r | None \<Rightarrow> emptyResponse);
          c = c0\<lparr>inputTokens := usageInputTokens response,
                  outputTokens := usageOutputTokens response,
                  cacheReadInputTokens := usageCachedTokens response\<rparr>;
          stopReason = streamStopReason response;
          c1 = writeAnthropicSseEvent
                 (MessageDelta stopReason
                    \<lparr> usage_input_tokens = inputTokens c - cacheReadInputTokens c,
                      usage_output_tokens = outputTokens c,
                      usage_cache_creation_input_tokens = 0,
                      usage_cache_read_input_tokens = cacheReadInputTokens c \<rparr>) c
      in writeAnthropicSseEvent MessageStop c1)"

text \<open>
  \<^verbatim>\<open>
  processEvent(event) {
    if (!event || !event.type) return
    switch (event.type) {
      case 'response.created': this._ensureMessageStart(); break
      case 'response.output_item.added': this._handleOutputItemAdded(event); break
      case 'response.reasoning_summary_part.added': this._handleReasoningSummaryPartAdded(); break
      case 'response.reasoning_summary_text.delta': this._handleReasoningSummaryTextDelta(event); break
      case 'response.reasoning_summary_part.done': this._handleBlockStop(); break
      case 'response.content_part.added': this._handleContentPartAdded(event); break
      case 'response.output_text.delta': this._handleOutputTextDelta(event); break
      case 'response.content_part.done': this._handleBlockStop(); break
      case 'response.function_call_arguments.delta': this._handleFunctionCallArgumentsDelta(event); break
      case 'response.output_item.done': this._handleOutputItemDone(event); break
      case 'response.completed': this._handleResponseCompleted(event); break
      default: break
    }
  }
  \<close>
  The argument is \<open>None\<close> for a \<open>null\<close> event.
\<close>

definition processEvent :: "converter \<Rightarrow> codex_event option \<Rightarrow> converter" where
  "processEvent c ev =
     (case ev of
        None \<Rightarrow> c
      | Some event \<Rightarrow>
          (let t = str_or_empty (event_type event) in
           if t = [] then c
           else if t = ''response.created'' then ensureMessageStart c
           else if t = ''response.output_item.added'' then handleOutputItemAdded event c
           else if t = ''response.reasoning_summary_part.added'' then handleReasoningSummaryPartAdded c
           else if t = ''response.reasoning_summary_text.delta''
             then handleReasoningSummaryTextDelta event c
           else if t = ''response.reasoning_summary_part.done'' then handleBlockStop c
           else if t = ''response.content_part.added'' then handleContentPartAdded event c
           else if t = ''response.output_text.delta'' then handleOutputTextDelta event c
           else if t = ''response.content_part.done'' then handleBlockStop c
           else if t = ''response.function_call_arguments.delta''
             then handleFunctionCallArgumentsDelta event c
           else if t = ''response.output_item.done'' then handleOutputItemDone event c
           else if t = ''response.completed'' then handleResponseCompleted event c
           else c))"

text \<open>The events of a stream, fed to the converter in arrival order.\<close>

definition processEvents :: "converter \<Rightarrow> codex_event option list \<Rightarrow> converter" where
  "processEvents c evs = foldl processEvent c evs"

text \<open>
  \<^verbatim>\<open>
  getUsage() {
    return {
      inputTokens: this.inputTokens - this.cacheReadInputTokens,
      outputTokens: this.outputTokens,
      cacheReadInputTokens: this.cacheReadInputTokens
    }
  }
  \<close>
  The result is the triple \<open>(inputTokens, outputTokens, cacheReadInputTokens)\<close>.
\<close>

definition getUsage :: "converter \<Rightarrow> int \<times> int \<times> int" where
  "getUsage c = (inputTokens c - cacheReadInputTokens c, outputTokens c, cacheReadInputTokens c)"

text \<open>
  What the streaming handler hands to the metrics sink when the upstream stream ends:
  \<^verbatim>\<open>
  const usage = converter.getUsage()
  if (usage.inputTokens > 0 || usage.outputTokens > 0) {
    await apiKeyService.recordUsage(apiKeyData.id, usage.inputTokens, usage.outputTokens,
      0, usage.cacheReadInputTokens, baseModel, accountId, accountType)
    ...
  }
  \<close>
  The result is the usage passed to \<open>recordUsage\<close> (input, output, cache creation, cache
  read), \<open>None\<close> when the call is skipped.
\<close>

definition streamRecordUsage :: "converter \<Rightarrow> anthropic_usage option" where
  "streamRecordUsage c =
     (let (usageInput, usageOutput, usageCacheRead) = getUsage c
      in if usageInput > 0 \<or> usageOutput > 0
         then Some \<lparr> usage_input_tokens = usageInput, usage_output_tokens = usageOutput,
                     usage_cache_creation_input_tokens = 0,
                     usage_cache_read_input_tokens = usageCacheRead \<rparr>
         else None)"

section \<open>Non-streaming translator\<close>

text \<open>
  The collector keeps the payload of the last \<open>response.completed\<close> event of the stream:
  \<^verbatim>\<open>
  if (event.type === 'data' && event.data?.type === 'response.completed') {
    codexResponse = event.data.response || {}
  }
  \<close>
\<close>

definition collectedResponse :: "codex_event \<Rightarrow> codex_response" where
  "collectedResponse event =
     (case event_response event of Some r \<Rightarrow> r | None \<Rightarrow> emptyResponse)"

text \<open>
  \<^verbatim>\<open>
  const reverseToolIdMap = new Map()
  for (const [anthropicId, codexId] of toolIdMap.entries()) {
    reverseToolIdMap.set(codexId, anthropicId)
  }
  \<close>
\<close>

definition reverseToolIdMap :: "(json \<times> string) list \<Rightarrow> (string \<times> json) list" where
  "reverseToolIdMap m = foldl (\<lambda>r (anthropicId, codexId). AList.update codexId anthropicId r) [] m"

text \<open>\<open>reverseToolIdMap.get(item.call_id)\<close>, \<open>undefined\<close> when there is no entry.\<close>

definition reverseGet :: "(string \<times> json) list \<Rightarrow> string option \<Rightarrow> json" where
  "reverseGet r callId =
     (case callId of
        None \<Rightarrow> JUndefined
      | Some k \<Rightarrow> (case map_of r k of Some a \<Rightarrow> a | None \<Rightarrow> JUndefined))"

record anthropic_message =
  message_id :: string
  message_model :: string
  message_content :: "content_block list"
  message_stop_reason :: string
  message_usage :: anthropic_usage

text \<open>
  One turn of the loop over \<open>codexResponse.output\<close>. \<open>parse\<close> stands for
  \<open>JSON.parse\<close>, with \<open>None\<close> where it throws.
  \<^verbatim>\<open>
  if (item.type === 'reasoning') {
    const summaryParts = item.summary || []
    const thinkingText = summaryParts.map((p) => p.text || '').join('')
    if (thinkingText) {
      content.push({ type: 'thinking', thinking: thinkingText })
    }
  } else if (item.type === 'message') {
    const msgContent = item.content || []
    for (const part of msgContent) {
      if (part.type === 'output_text') {
        content.push({ type: 'text', text: part.text || '' })
      }
    }
  } else if (item.type === 'function_call') {
    const anthropicId =
      reverseToolIdMap.get(item.call_id) || `toolu_${crypto.randomBytes(12).toString('hex')}`
    let parsedInput = {}
    if (item.arguments) {
      try { parsedInput = JSON.parse(item.arguments) } catch { parsedInput = { raw: item.arguments } }
    }
    content.push({ type: 'tool_use', id: anthropicId, name: item.name, input: parsedInput })
  }
  \<close>
\<close>

definition convertOutputItem ::
  "(string \<Rightarrow> json option) \<Rightarrow> (string \<times> json) list \<Rightarrow> codex_item \<Rightarrow>
     content_block list \<times> rng \<Rightarrow> content_block list \<times> rng" where
  "convertOutputItem parse r item acc =
     (let (content, g) = acc in
      if item_type item = Some ''reasoning'' then
        (let summaryParts = (case item_summary item of Some ps \<Rightarrow> ps | None \<Rightarrow> []);
             thinkingText = concat (map (\<lambda>p. str_or_empty (summary_text p)) summaryParts)
         in if thinkingText \<noteq> [] then (content @ [Thinking thinkingText], g) else (content, g))
      else if item_type item = Some ''message'' then
        (let msgContent = (case item_content item of Some ps \<Rightarrow> ps | None \<Rightarrow> [])
         in (content @
               map (\<lambda>part. Text (str_or_empty (part_text part)))
                 (filter (\<lambda>part. part_type part = Some ''output_text'') msgContent), g))
      else if item_type item = Some ''function_call'' then
        (let found = reverseGet r (item_call_id item);
             (anthropicId, g') =
               (if truthy found then (found, g)
                else (let (fresh, g1) = generateTooluId g in (JStr fresh, g1)));
             arguments = str_or_empty (item_arguments item);
             parsedInput =
               (if arguments \<noteq> []
                then (case parse arguments of
                        Some v \<Rightarrow> v
                      | None \<Rightarrow> JObj [(''raw'', JStr arguments)])
                else JObj [])
         in (content @ [ToolUse anthropicId (item_name item) parsedInput], g'))
      else (content, g))"

definition convertOutputItems ::
  "(string \<Rightarrow> json option) \<Rightarrow> (string \<times> json) list \<Rightarrow> codex_item list \<Rightarrow>
     content_block list \<times> rng \<Rightarrow> content_block list \<times> rng" where
  "convertOutputItems parse r items acc = foldl (\<lambda>a item. convertOutputItem parse r item a) acc items"

fun is_tool_use :: "content_block \<Rightarrow> bool" where
  "is_tool_use (ToolUse i n v) = True"
| "is_tool_use b = False"

text \<open>
  The stop reason of the non-streaming path:
  \<^verbatim>\<open>
  let stopReason = 'end_turn'
  const codexStatus = codexResponse.status
  if (codexStatus === 'incomplete' &&
      codexResponse.incomplete_details?.reason === 'max_output_tokens') {
    stopReason = 'max_tokens'
  }
  // If there are tool_use blocks, stop_reason should be tool_use
  if (content.some((c) => c.type === 'tool_use')) {
    stopReason = 'tool_use'
  }
  \<close>
\<close>

definition nonStreamStopReason :: "codex_response \<Rightarrow> content_block list \<Rightarrow> string" where
  "nonStreamStopReason codexResponse content =
     (let stopReason =
            (if isIncompleteMaxOutputTokens codexResponse then ''max_tokens'' else ''end_turn'')
      in if list_ex is_tool_use content then ''tool_use'' else stopReason)"

text \<open>
  \<^verbatim>\<open>
  function convertCodexResponseToAnthropic(codexResponse, baseModel, toolIdMap) {
    const content = []
    ...reverseToolIdMap...
    const output = codexResponse.output || []
    for (const item of output) { ...the turn above... }
    ...stopReason as above...
    const codexUsage = codexResponse.usage || {}
    const inputTokens = codexUsage.input_tokens || 0
    const outputTokens = codexUsage.output_tokens || 0
    const inputTokensDetails = codexUsage.input_tokens_details || {}
    const cacheReadInputTokens = inputTokensDetails.cached_tokens || 0
    return {
      id: `msg_${crypto.randomBytes(16).toString('hex')}`,
      type: 'message', role: 'assistant', model: CODEX_RESPONSE_MODEL_ALIAS,
      content, stop_reason: stopReason, stop_sequence: null,
      usage: {
        input_tokens: inputTokens - cacheReadInputTokens,
        output_tokens: outputTokens,
        cache_creation_input_tokens: 0,
        cache_read_input_tokens: cacheReadInputTokens } }
  }
  \<close>
  The model takes \<open>JSON.parse\<close> and the entropy as further arguments and returns the
  entropy left with the message.
\<close>

definition convertCodexResponseToAnthropic ::
  "(string \<Rightarrow> json option) \<Rightarrow> rng \<Rightarrow> codex_response \<Rightarrow> (json \<times> string) list \<Rightarrow>
     anthropic_message \<times> rng" where
  "convertCodexResponseToAnthropic parse g codexResponse m =
     (let r = reverseToolIdMap m;
          items = (case response_output codexResponse of Some xs \<Rightarrow> xs | None \<Rightarrow> []);
          (content, g1) = convertOutputItems parse r items ([], g);
          stopReason = nonStreamStopReason codexResponse content;
          inputTokens = usageInputTokens codexResponse;
          outputTokens = usageOutputTokens codexResponse;
          cacheReadInputTokens = usageCachedTokens codexResponse;
          (mid, g2) = generateMessageId g1
      in (\<lparr> message_id = mid, message_model = CODEX_RESPONSE_MODEL_ALIAS,
            message_content = content, message_stop_reason = stopReason,
            message_usage =
              \<lparr> usage_input_tokens = inputTokens - cacheReadInputTokens,
                usage_output_tokens = outputTokens,
                usage_cache_creation_input_tokens = 0,
                usage_cache_read_input_tokens = cacheReadInputTokens \<rparr> \<rparr>, g2))"

text \<open>
  What \<open>handleNonStreamResponse\<close> hands to the metrics sink:
  \<^verbatim>\<open>
  const usage = anthropicResponse.usage
  if (usage && (usage.input_tokens > 0 || usage.output_tokens > 0)) {
    await apiKeyService.recordUsage(apiKeyData.id, usage.input_tokens, usage.output_tokens,
      0, usage.cache_read_input_tokens || 0, baseModel, accountId, accountType)
    ...
  }
  \<close>
\<close>

definition nonStreamRecordUsage :: "anthropic_message \<Rightarrow> anthropic_usage option" where
  "nonStreamRecordUsage anthropicResponse =
     (let u = message_usage anthropicResponse
      in if usage_input_tokens u > 0 \<or> usage_output_tokens u > 0
         then Some \<lparr> usage_input_tokens = usage_input_tokens u,
                     usage_output_tokens = usage_output_tokens u,
                     usage_cache_creation_input_tokens = 0,
                     usage_cache_read_input_tokens = usage_cache_read_input_tokens u \<rparr>
         else None)"

section \<open>The stop reason of the specification\<close>

text \<open>
  The derivation as the specification words it: \<open>tool_use\<close> whenever any output item has
  type \<open>function_call\<close>; otherwise \<open>max_tokens\<close> when the status is \<open>incomplete\<close> with
  \<open>incomplete_details.reason\<close> \<open>max_output_tokens\<close>; otherwise \<open>end_turn\<close>.
\<close>

definition spec_stop_reason :: "codex_response \<Rightarrow> string" where
  "spec_stop_reason response =
     (if list_ex (\<lambda>item. item_type item = Some ''function_call'')
           (case response_output response of Some items \<Rightarrow> items | None \<Rightarrow> [])
      then ''tool_use''
      else if response_status response = Some ''incomplete'' \<and>
              (case response_incomplete_details response of
                 Some d \<Rightarrow> incomplete_reason d = Some ''max_output_tokens''
               | None \<Rightarrow> False)
      then ''max_tokens''
      else ''end_turn'')"

section \<open>Reading the client's stream\<close>

text \<open>The kinds of event whose order in the client's stream matters.\<close>

fun is_message_start :: "anthropic_event \<Rightarrow> bool" where
  "is_message_start (MessageStart i mo u) = True"
| "is_message_start e = False"

fun is_content_block_start :: "anthropic_event \<Rightarrow> bool" where
  "is_content_block_start (ContentBlockStart i b) = True"
| "is_content_block_start e = False"

fun is_content_block :: "anthropic_event \<Rightarrow> bool" where
  "is_content_block (ContentBlockStart i b) = True"
| "is_content_block (ContentBlockDelta i d) = True"
| "is_content_block (ContentBlockStop i) = True"
| "is_content_block e = False"

text \<open>
  The upstream events whose handler calls \<open>_ensureMessageStart\<close>: \<open>response.created\<close>,
  \<open>response.output_item.added\<close>, \<open>response.reasoning_summary_part.added\<close> and
  \<open>response.content_part.added\<close>.
\<close>

definition ensures_message_start :: "codex_event option \<Rightarrow> bool" where
  "ensures_message_start ev =
     (case ev of
        None \<Rightarrow> False
      | Some event \<Rightarrow>
          event_type event \<in> {Some ''response.created'', Some ''response.output_item.added'',
            Some ''response.reasoning_summary_part.added'', Some ''response.content_part.added''})"

text \<open>
  The upstream events that go to a delta handler or a stop handler:
  \<open>response.reasoning_summary_text.delta\<close>, \<open>response.output_text.delta\<close>,
  \<open>response.function_call_arguments.delta\<close>, \<open>response.reasoning_summary_part.done\<close>,
  \<open>response.content_part.done\<close> and \<open>response.output_item.done\<close>.
\<close>

definition delta_or_stop :: "codex_event option \<Rightarrow> bool" where
  "delta_or_stop ev =
     (case ev of
        None \<Rightarrow> False
      | Some event \<Rightarrow>
          event_type event \<in> {Some ''response.reasoning_summary_text.delta'',
            Some ''response.output_text.delta'', Some ''response.function_call_arguments.delta'',
            Some ''response.reasoning_summary_part.done'', Some ''response.content_part.done'',
            Some ''response.output_item.done''})"

section \<open>The scenario of the specification\<close>

text \<open>
  Scenario D of the specification: the upstream stream \<open>response.created\<close>,
  \<open>response.output_item.added\<close> (a \<open>function_call\<close> with \<open>call_id\<close> \<open>call_A\<close> and name
  \<open>run\<close>), two \<open>response.function_call_arguments.delta\<close>, \<open>response.output_item.done\<close>
  and \<open>response.completed\<close> with usage \<open>input_tokens = 100\<close>, \<open>output_tokens = 20\<close>,
  \<open>cached_tokens = 40\<close>. The entropy tape of the scenario holds zero bytes only, and
  its \<open>JSON.parse\<close> knows the arguments of the one call.
\<close>

definition scenario_item :: codex_item where
  "scenario_item =
     \<lparr> item_type = Some ''function_call'', item_call_id = Some ''call_A'',
       item_name = Some ''run'', item_arguments = Some ''{\"x\":1}'', item_summary = None,
       item_content = None \<rparr>"

definition scenario_event :: "string \<Rightarrow> codex_event" where
  "scenario_event t =
     \<lparr> event_type = Some t, event_item = None, event_part = None, event_delta = None,
       event_response = None \<rparr>"

definition scenario_response :: codex_response where
  "scenario_response =
     \<lparr> response_status = Some ''completed'', response_incomplete_details = None,
       response_output = Some [scenario_item],
       response_usage =
         Some \<lparr> input_tokens = Some 100, output_tokens = Some 20,
                input_tokens_details = Some \<lparr> cached_tokens = Some 40 \<rparr> \<rparr> \<rparr>"

definition scenario_completed :: codex_event where
  "scenario_completed =
     (scenario_event ''response.completed'')\<lparr>event_response := Some scenario_response\<rparr>"

definition scenario_events :: "codex_event option list" where
  "scenario_events =
     [Some (scenario_event ''response.created''),
      Some ((scenario_event ''response.output_item.added'')\<lparr>event_item := Some scenario_item\<rparr>),
      Some ((scenario_event ''response.function_call_arguments.delta'')
              \<lparr>event_delta := Some ''{\"x\":''\<rparr>),
      Some ((scenario_event ''response.function_call_arguments.delta'')
              \<lparr>event_delta := Some ''1}''\<rparr>),
      Some ((scenario_event ''response.output_item.done'')\<lparr>event_item := Some scenario_item\<rparr>),
      Some scenario_completed]"

definition scenario_rng :: rng where
  "scenario_rng = \<lparr> tape = (\<lambda>i. 0), cursor = 0 \<rparr>"

definition scenario_parse :: "string \<Rightarrow> json option" where
  "scenario_parse s = (if s = ''{\"x\":1}'' then Some (JObj [(''x'', JNum 1)]) else None)"

section \<open>Request translation: messages\<close>

text \<open>
  The tool-call map \<open>toolIdMap\<close> is a JavaScript \<open>Map\<close>: its entries in insertion order.
  Keys are compared by value when they are primitives. A key that is an object or an array
  is compared by identity, and the \<open>id\<close> of one block is never the same object as the
  \<open>tool_use_id\<close> of another: such a key gets an entry of its own and is never found
  again.
\<close>

fun is_primitive :: "json \<Rightarrow> bool" where
  "is_primitive (JArr xs) = False"
| "is_primitive (JObj fs) = False"
| "is_primitive v = True"

definition mapSet :: "(json \<times> string) list \<Rightarrow> json \<Rightarrow> string \<Rightarrow> (json \<times> string) list" where
  "mapSet m k v = (if is_primitive k then AList.update k v m else m @ [(k, v)])"

definition mapGet :: "(json \<times> string) list \<Rightarrow> json \<Rightarrow> string option" where
  "mapGet m k = (if is_primitive k then map_of m k else None)"

text \<open>
  \<^verbatim>\<open>
  function normalizeContent(content) {
    if (!content) return []
    if (typeof content === 'string') return [{ type: 'text', text: content }]
    if (Array.isArray(content)) return content
    return []
  }
  \<close>
\<close>

definition normalizeContent :: "json \<Rightarrow> json list" where
  "normalizeContent content =
     (if \<not> truthy content then []
      else if typeof content = ''string''
        then [JObj [(''type'', JStr ''text''), (''text'', content)]]
      else (case content of JArr blocks \<Rightarrow> blocks | _ \<Rightarrow> []))"

text \<open>
  The state of \<open>convertMessagesToCodexInput\<close>: the \<open>input\<close> array built so far, the
  tool-call map and the entropy left.
\<close>

record translation =
  codex_input :: "json list"
  tool_ids :: "(json \<times> string) list"
  randomness :: rng

definition push :: "json \<Rightarrow> translation \<Rightarrow> translation" where
  "push item st = st\<lparr>codex_input := codex_input st @ [item]\<rparr>"

text \<open>A loop over an array whose body may throw: the first error ends it.\<close>

fun forEach ::
  "(translation \<Rightarrow> json \<Rightarrow> js_error + translation) \<Rightarrow> json list \<Rightarrow> translation \<Rightarrow>
     js_error + translation" where
  "forEach f [] st = Inr st"
| "forEach f (x # xs) st = (case f st x of Inl e \<Rightarrow> Inl e | Inr st' \<Rightarrow> forEach f xs st')"

text \<open>
  The text of a tool result:
  \<^verbatim>\<open>
  let outputText = ''
  if (typeof block.content === 'string') {
    outputText = block.content
  } else if (Array.isArray(block.content)) {
    outputText = block.content
      .filter((c) => c.type === 'text')
      .map((c) => c.text || '')
      .join('\n')
  }
  \<close>
  \<open>c.type\<close> throws on an element that is \<open>null\<close>, and \<open>join\<close> on a text that has no
  string form.
\<close>

fun filterTextParts :: "json list \<Rightarrow> js_error + json list" where
  "filterTextParts [] = Inr []"
| "filterTextParts (c # cs) =
     (case get c ''type'' of
        Inl e \<Rightarrow> Inl e
      | Inr t \<Rightarrow>
          (case filterTextParts cs of
             Inl e \<Rightarrow> Inl e
           | Inr kept \<Rightarrow> Inr (if t = JStr ''text'' then c # kept else kept)))"

definition toolResultText :: "json \<Rightarrow> js_error + string" where
  "toolResultText content =
     (case content of
        JStr s \<Rightarrow> Inr s
      | JArr cs \<Rightarrow>
          (case filterTextParts cs of
             Inl e \<Rightarrow> Inl e
           | Inr kept \<Rightarrow>
               arrayJoin [CHR 0x0A] (map (\<lambda>c. js_or (dot c ''text'') (JStr [])) kept))
      | _ \<Rightarrow> Inr [])"

text \<open>
  A block of a user turn:
  \<^verbatim>\<open>
  if (block.type === 'text') {
    input.push({ role: 'user', content: block.text })
  } else if (block.type === 'tool_result') {
    const callId = toolIdMap.get(block.tool_use_id) || block.tool_use_id
    ...outputText as above...
    input.push({ type: 'function_call_output', call_id: callId, output: outputText })
  }
  \<close>
\<close>

definition convertUserBlock :: "translation \<Rightarrow> json \<Rightarrow> js_error + translation" where
  "convertUserBlock st block =
     (case get block ''type'' of
        Inl e \<Rightarrow> Inl e
      | Inr t \<Rightarrow>
          if t = JStr ''text'' then
            Inr (push (JObj [(''role'', JStr ''user''), (''content'', dot block ''text'')]) st)
          else if t = JStr ''tool_result'' then
            (let callId =
                   js_or (case mapGet (tool_ids st) (dot block ''tool_use_id'') of
                            Some c \<Rightarrow> JStr c
                          | None \<Rightarrow> JUndefined)
                     (dot block ''tool_use_id'')
             in case toolResultText (dot block ''content'') of
                  Inl e \<Rightarrow> Inl e
                | Inr outputText \<Rightarrow>
                    Inr (push (JObj [(''type'', JStr ''function_call_output''),
                                     (''call_id'', callId),
                                     (''output'', JStr outputText)]) st))
          else Inr st)"

text \<open>
  A block of an assistant turn; \<open>stringify\<close> stands for \<open>JSON.stringify\<close>.
  \<^verbatim>\<open>
  if (block.type === 'thinking') {
    // Skip thinking blocks: Codex has its own reasoning
    continue
  } else if (block.type === 'text') {
    input.push({ type: 'message', role: 'assistant',
                 content: [{ type: 'output_text', text: block.text }] })
  } else if (block.type === 'tool_use') {
    const callId = generateCodexCallId()
    toolIdMap.set(block.id, callId)
    input.push({ type: 'function_call', call_id: callId, name: block.name,
      arguments: typeof block.input === 'string' ? block.input : JSON.stringify(block.input) })
  }
  \<close>
\<close>

definition convertAssistantBlock ::
  "(json \<Rightarrow> json) \<Rightarrow> translation \<Rightarrow> json \<Rightarrow> js_error + translation" where
  "convertAssistantBlock stringify st block =
     (case get block ''type'' of
        Inl e \<Rightarrow> Inl e
      | Inr t \<Rightarrow>
          if t = JStr ''thinking'' then Inr st
          else if t = JStr ''text'' then
            Inr (push (JObj [(''type'', JStr ''message''), (''role'', JStr ''assistant''),
                             (''content'',
                              JArr [JObj [(''type'', JStr ''output_text''),
                                          (''text'', dot block ''text'')]])]) st)
          else if t = JStr ''tool_use'' then
            (let (callId, g) = generateCodexCallId (randomness st);
                 st1 = st\<lparr>randomness := g,
                          tool_ids := mapSet (tool_ids st) (dot block ''id'') callId\<rparr>
             in Inr (push (JObj [(''type'', JStr ''function_call''),
                                 (''call_id'', JStr callId),
                                 (''name'', dot block ''name''),
                                 (''arguments'',
                                  if typeof (dot block ''input'') = ''string''
                                  then dot block ''input''
                                  else stringify (dot block ''input''))]) st1))
          else Inr st)"

text \<open>
  \<^verbatim>\<open>
  function convertMessagesToCodexInput(messages) {
    const input = []
    const toolIdMap = new Map()
    for (const msg of messages) {
      if (msg.role === 'user') {
        const contentBlocks = normalizeContent(msg.content)
        for (const block of contentBlocks) { ...a block of a user turn... }
      } else if (msg.role === 'assistant') {
        const contentBlocks = normalizeContent(msg.content)
        for (const block of contentBlocks) { ...a block of an assistant turn... }
      }
    }
    return { input, toolIdMap }
  }
  \<close>
\<close>

definition convertMessage ::
  "(json \<Rightarrow> json) \<Rightarrow> translation \<Rightarrow> json \<Rightarrow> js_error + translation" where
  "convertMessage stringify st msg =
     (case get msg ''role'' of
        Inl e \<Rightarrow> Inl e
      | Inr role \<Rightarrow>
          if role = JStr ''user''
            then forEach convertUserBlock (normalizeContent (dot msg ''content'')) st
          else if role = JStr ''assistant''
            then forEach (convertAssistantBlock stringify) (normalizeContent (dot msg ''content'')) st
          else Inr st)"

text \<open>
  What \<open>for (const msg of messages)\<close> runs over: the elements of an array, the characters
  of a string; any other value is not iterable.
\<close>

definition iterate :: "json \<Rightarrow> js_error + json list" where
  "iterate v =
     (case v of
        JArr xs \<Rightarrow> Inr xs
      | JStr s \<Rightarrow> Inr (map (\<lambda>c. JStr [c]) s)
      | _ \<Rightarrow> Inl TypeError)"

definition convertMessagesToCodexInput ::
  "(json \<Rightarrow> json) \<Rightarrow> rng \<Rightarrow> json \<Rightarrow> js_error + translation" where
  "convertMessagesToCodexInput stringify g messages =
     (case iterate messages of
        Inl e \<Rightarrow> Inl e
      | Inr msgs \<Rightarrow>
          forEach (convertMessage stringify) msgs
            \<lparr> codex_input = [], tool_ids = [], randomness = g \<rparr>)"

text \<open>
  The turns and blocks the translation reads without an error. No property of \<open>null\<close>
  is read: the turn is not \<open>null\<close> or \<open>undefined\<close>, none of the content blocks of a
  user or assistant turn is, and in a user turn no element of the \<open>content\<close> array of
  a \<open>tool_result\<close> block is. No conversion to a string fails: in such an array, the
  \<open>text\<close> of every element of type \<open>text\<close> has a string form. The blocks of a turn
  with another role are not read at all.
\<close>

definition nonnull :: "json \<Rightarrow> bool" where
  "nonnull v = (v \<noteq> JNull \<and> v \<noteq> JUndefined)"

definition readable_part :: "json \<Rightarrow> bool" where
  "readable_part c =
     (nonnull c \<and>
      (if dot c ''type'' = JStr ''text''
       then has_string_form (js_or (dot c ''text'') (JStr [])) else True))"

definition readable_user_block :: "json \<Rightarrow> bool" where
  "readable_user_block block =
     (nonnull block \<and>
      (if dot block ''type'' = JStr ''tool_result''
       then (case dot block ''content'' of JArr cs \<Rightarrow> list_all readable_part cs | _ \<Rightarrow> True)
       else True))"

definition readable_turn :: "json \<Rightarrow> bool" where
  "readable_turn msg =
     (nonnull msg \<and>
      (if dot msg ''role'' = JStr ''user''
         then list_all readable_user_block (normalizeContent (dot msg ''content''))
       else if dot msg ''role'' = JStr ''assistant''
         then list_all nonnull (normalizeContent (dot msg ''content''))
       else True))"

definition readable_messages :: "json \<Rightarrow> bool" where
  "readable_messages messages =
     (case iterate messages of Inl e \<Rightarrow> False | Inr msgs \<Rightarrow> list_all readable_turn msgs)"


text \<open>
  The request of the specification's round trip: an assistant turn with one \<open>tool_use\<close>
  block and a user turn with the \<open>tool_result\<close> for it; the \<open>JSON.stringify\<close> of the
  scenario knows the input of the one call.
\<close>

definition scenario_stringify :: "json \<Rightarrow> json" where
  "scenario_stringify v =
     (if v = JObj [(''x'', JNum 1)] then JStr ''{\"x\":1}'' else JUndefined)"

definition scenario_messages :: json where
  "scenario_messages =
     JArr [JObj [(''role'', JStr ''assistant''),
                 (''content'',
                  JArr [JObj [(''type'', JStr ''tool_use''), (''id'', JStr ''toolu_I''),
                              (''name'', JStr ''run''), (''input'', JObj [(''x'', JNum 1)])]])],
           JObj [(''role'', JStr ''user''),
                 (''content'',
                  JArr [JObj [(''type'', JStr ''tool_result''), (''tool_use_id'', JStr ''toolu_I''),
                              (''content'', JStr ''done'')]])]]"

text \<open>The two kinds of item a tool call leaves in \<open>input\<close>.\<close>

definition function_call_item :: "string \<Rightarrow> json \<Rightarrow> json \<Rightarrow> json" where
  "function_call_item callId name arguments =
     JObj [(''type'', JStr ''function_call''), (''call_id'', JStr callId), (''name'', name),
           (''arguments'', arguments)]"

definition function_call_output_item :: "json \<Rightarrow> string \<Rightarrow> json" where
  "function_call_output_item callId outputText =
     JObj [(''type'', JStr ''function_call_output''), (''call_id'', callId),
           (''output'', JStr outputText)]"




section \<open>Properties\<close>

subsection \<open>Tool choice\<close>

lemma convertToolChoiceToCodex_string:
  "convertToolChoiceToCodex (JStr s) =
     (if s = ''any'' then JStr ''required'' else if s = [] then JUndefined else JStr s)"
  by (simp add: convertToolChoiceToCodex_def)

lemma convertToolChoiceToCodex_object:
  "convertToolChoiceToCodex (JObj fs) =
     (if dot (JObj fs) ''type'' = JStr ''auto'' then JStr ''auto''
      else if dot (JObj fs) ''type'' = JStr ''any'' then JStr ''required''
      else if dot (JObj fs) ''type'' = JStr ''tool'' \<and> truthy (dot (JObj fs) ''name'')
        then JObj [(''type'', JStr ''function''), (''name'', dot (JObj fs) ''name'')]
      else JUndefined)"
  by (simp add: convertToolChoiceToCodex_def)

lemma convertToolChoiceToCodex_other:
  "(\<forall>s. v \<noteq> JStr s) \<Longrightarrow> (\<forall>fs. v \<noteq> JObj fs) \<Longrightarrow> convertToolChoiceToCodex v = JUndefined"
  by (cases v) (simp_all add: convertToolChoiceToCodex_def)

text \<open>
  Claim C3, as the code has it. The strings \<open>auto\<close> and \<open>none\<close> pass, \<open>any\<close> becomes
  \<open>required\<close>; a value whose \<open>type\<close> is \<open>auto\<close> becomes \<open>auto\<close>, \<open>any\<close> becomes
  \<open>required\<close>, \<open>tool\<close> with a truthy \<open>name\<close> becomes \<open>{type: 'function', name}\<close>. Every
  other non-empty string is returned unchanged; every remaining value gives
  \<open>undefined\<close>. The outbound body gets a \<open>tool_choice\<close> exactly when the converted value is
  not \<open>undefined\<close>.
\<close>

theorem tool_choice_mapping:
  "convertToolChoiceToCodex (JStr ''auto'') = JStr ''auto'' \<and>
   convertToolChoiceToCodex (JStr ''none'') = JStr ''none'' \<and>
   convertToolChoiceToCodex (JStr ''any'') = JStr ''required'' \<and>
   (dot v ''type'' = JStr ''auto'' \<longrightarrow> convertToolChoiceToCodex v = JStr ''auto'') \<and>
   (dot v ''type'' = JStr ''any'' \<longrightarrow> convertToolChoiceToCodex v = JStr ''required'') \<and>
   (dot v ''type'' = JStr ''tool'' \<and> truthy (dot v ''name'') \<longrightarrow>
      convertToolChoiceToCodex v = JObj [(''type'', JStr ''function''), (''name'', dot v ''name'')]) \<and>
   (s \<noteq> [] \<and> s \<noteq> ''any'' \<longrightarrow> convertToolChoiceToCodex (JStr s) = JStr s) \<and>
   ((\<forall>t. t \<noteq> [] \<longrightarrow> v \<noteq> JStr t) \<and> dot v ''type'' \<noteq> JStr ''auto'' \<and>
    dot v ''type'' \<noteq> JStr ''any'' \<and>
    \<not> (dot v ''type'' = JStr ''tool'' \<and> truthy (dot v ''name'')) \<longrightarrow>
      convertToolChoiceToCodex v = JUndefined) \<and>
   (convertToolChoiceToCodex (dot body ''tool_choice'') = JUndefined \<longrightarrow>
      assignToolChoice body codexBody = codexBody) \<and>
   (convertToolChoiceToCodex (dot body ''tool_choice'') \<noteq> JUndefined \<longrightarrow>
      map_of (assignToolChoice body codexBody) ''tool_choice'' =
        Some (convertToolChoiceToCodex (dot body ''tool_choice'')))"
proof -
  have obj: "convertToolChoiceToCodex v =
     (if dot v ''type'' = JStr ''auto'' then JStr ''auto''
      else if dot v ''type'' = JStr ''any'' then JStr ''required''
      else if dot v ''type'' = JStr ''tool'' \<and> truthy (dot v ''name'')
        then JObj [(''type'', JStr ''function''), (''name'', dot v ''name'')]
      else JUndefined)" if "\<forall>t. t \<noteq> [] \<longrightarrow> v \<noteq> JStr t"
    using that by (cases v) (auto simp: convertToolChoiceToCodex_def)
  have nostr: "\<forall>t. t \<noteq> [] \<longrightarrow> v \<noteq> JStr t" if "dot v ''type'' \<noteq> JUndefined"
    using that by (cases v) simp_all
  show ?thesis
    using obj nostr
    by (auto simp: convertToolChoiceToCodex_string assignToolChoice_def Let_def update_conv')
qed

theorem tool_choice_mapping_witness:
  "convertToolChoiceToCodex (JObj [(''type'', JStr ''auto'')]) = JStr ''auto'' \<and>
   convertToolChoiceToCodex (JObj [(''type'', JStr ''any'')]) = JStr ''required'' \<and>
   convertToolChoiceToCodex (JObj [(''type'', JStr ''tool''), (''name'', JStr ''X'')]) =
     JObj [(''type'', JStr ''function''), (''name'', JStr ''X'')] \<and>
   convertToolChoiceToCodex (JStr ''required'') = JStr ''required'' \<and>
   convertToolChoiceToCodex (JNum 7) = JUndefined \<and>
   assignToolChoice (JObj [(''tool_choice'', JNum 7)]) [(''model'', JStr ''m'')] =
     [(''model'', JStr ''m'')] \<and>
   map_of (assignToolChoice (JObj [(''tool_choice'', JStr ''any'')]) [(''model'', JStr ''m'')])
     ''tool_choice'' = Some (JStr ''required'')"
  using tool_choice_mapping [where v = "JObj [(''type'', JStr ''auto'')]" and s = "''required''"
      and body = "JObj [(''tool_choice'', JNum 7)]" and codexBody = "[(''model'', JStr ''m'')]"]
    tool_choice_mapping [where v = "JObj [(''type'', JStr ''any'')]" and s = "''required''"
      and body = "JObj [(''tool_choice'', JStr ''any'')]" and codexBody = "[(''model'', JStr ''m'')]"]
    tool_choice_mapping [where v = "JObj [(''type'', JStr ''tool''), (''name'', JStr ''X'')]"]
    tool_choice_mapping [where v = "JNum 7"]
  by simp

text \<open>
  The claim's last clause fails: \<open>required\<close> is none of the strings the claim lists, and
  it is neither omitted by the converter nor absent from the outbound body.
\<close>

theorem tool_choice_unlisted_string_kept:
  "convertToolChoiceToCodex (JStr ''required'') \<noteq> JUndefined \<and>
   assignToolChoice (JObj [(''tool_choice'', JStr ''required'')]) [] =
     [(''tool_choice'', JStr ''required'')]"
  by (simp add: convertToolChoiceToCodex_def assignToolChoice_def)

subsection \<open>Model-name parser\<close>

lemma lastIndexOf_from_spec:
  "lastIndexOf_from c s i found = r \<Longrightarrow>
     (r = found \<and> c \<notin> set s) \<or>
     (i \<le> r \<and> r < i + int (length s) \<and> s ! nat (r - i) = c)"
proof (induction s arbitrary: i found)
  case Nil
  then show ?case by simp
next
  case (Cons x xs)
  from Cons.prems have "lastIndexOf_from c xs (i + 1) (if x = c then i else found) = r" by simp
  from Cons.IH[OF this] show ?case
  proof
    assume a: "r = (if x = c then i else found) \<and> c \<notin> set xs"
    show ?thesis
    proof (cases "x = c")
      case True
      with a show ?thesis by simp
    next
      case False
      with a show ?thesis by simp
    qed
  next
    assume a: "i + 1 \<le> r \<and> r < i + 1 + int (length xs) \<and> xs ! nat (r - (i + 1)) = c"
    then have "nat (r - i) = Suc (nat (r - (i + 1)))" by linarith
    with a show ?thesis by simp
  qed
qed

lemma lastIndexOf_pos:
  assumes "0 < lastIndexOf c s"
  shows "nat (lastIndexOf c s) < length s \<and> s ! nat (lastIndexOf c s) = c"
  using lastIndexOf_from_spec[of c s 0 "- 1" "lastIndexOf c s"] assms
  by (auto simp: lastIndexOf_def)

text \<open>
  Claim C5, as the code has it. When the parser finds an effort in the model string \<open>m\<close>,
  \<open>m\<close> is the returned model, a \<open>-\<close> and a tail, and the effort is the lower-cased tail:
  reattaching the effort gives \<open>m\<close> with its tail in lower case, which is \<open>m\<close> itself
  exactly when the tail was in lower case already.
\<close>

theorem model_suffix_reattach:
  assumes "parseModelWithReasoning (JStr m) = (actualModel, Some effort)"
  shows "\<exists>a. actualModel = JStr a \<and>
           a @ ''-'' @ drop (length a + 1) m = m \<and>
           effort = toLowerCase (drop (length a + 1) m) \<and>
           (a @ ''-'' @ effort = m \<longleftrightarrow>
              toLowerCase (drop (length a + 1) m) = drop (length a + 1) m)"
proof -
  let ?d = "lastIndexOf CHR ''-'' m"
  from assms have pos: "0 < ?d"
    and am: "actualModel = JStr (take (nat ?d) m)"
    and eff: "effort = toLowerCase (drop (nat (?d + 1)) m)"
    by (auto simp: parseModelWithReasoning_def Let_def js_or_def split: if_splits)
  from lastIndexOf_pos[OF pos] have lt: "nat ?d < length m" and at: "m ! nat ?d = CHR ''-''"
    by simp_all
  let ?a = "take (nat ?d) m"
  have len: "length ?a = nat ?d" using lt by simp
  have n1: "nat (?d + 1) = nat ?d + 1" using pos by linarith
  have split: "?a @ ''-'' @ drop (length ?a + 1) m = m"
    using id_take_nth_drop[OF lt] at len by simp
  have e2: "effort = toLowerCase (drop (length ?a + 1) m)" using eff n1 len by simp
  have "(?a @ ''-'' @ effort = m) = (toLowerCase (drop (length ?a + 1) m) = drop (length ?a + 1) m)"
  proof -
    have "(?a @ ''-'' @ effort = m) = (?a @ ''-'' @ effort = ?a @ ''-'' @ drop (length ?a + 1) m)"
      using split by simp
    also have "\<dots> = (effort = drop (length ?a + 1) m)" by simp
    finally show ?thesis using e2 by simp
  qed
  with am split e2 show ?thesis by blast
qed

lemma parse_xhigh: "parseModelWithReasoning (JStr ''gpt-5.2-codex-xhigh'') = (JStr ''gpt-5.2-codex'', Some ''xhigh'')"
  by code_simp

theorem model_suffix_reattach_witness:
  "parseModelWithReasoning (JStr ''gpt-5.2-codex-xhigh'') = (JStr ''gpt-5.2-codex'', Some ''xhigh'') \<and>
   (\<exists>a. JStr ''gpt-5.2-codex'' = JStr a \<and>
      a @ ''-'' @ drop (length a + 1) ''gpt-5.2-codex-xhigh'' = ''gpt-5.2-codex-xhigh'' \<and>
      ''xhigh'' = toLowerCase (drop (length a + 1) ''gpt-5.2-codex-xhigh'') \<and>
      (a @ ''-'' @ ''xhigh'' = ''gpt-5.2-codex-xhigh'' \<longleftrightarrow>
         toLowerCase (drop (length a + 1) ''gpt-5.2-codex-xhigh'') =
           drop (length a + 1) ''gpt-5.2-codex-xhigh''))"
  using model_suffix_reattach [OF parse_xhigh] parse_xhigh by simp

text \<open>
  The claim as stated fails on an upper-case suffix: \<open>gpt-5-HIGH\<close> parses to the model
  \<open>gpt-5\<close> with effort \<open>high\<close>, and \<open>gpt-5-high\<close> is not the string that was parsed.
\<close>

theorem model_suffix_uppercase_not_restored:
  "parseModelWithReasoning (JStr ''gpt-5-HIGH'') = (JStr ''gpt-5'', Some ''high'') \<and>
   ''gpt-5'' @ ''-'' @ ''high'' \<noteq> ''gpt-5-HIGH''"
  by code_simp

subsection \<open>Conversion to a string\<close>

lemma js_toString_total:
  "has_string_form v \<longleftrightarrow> (\<exists>s. js_toString v = Inr s)"
  "list_all has_string_form xs \<longleftrightarrow> (\<exists>ss. js_toStrings xs = Inr ss)"
  by (induction v and xs rule: js_toString_js_toStrings.induct)
     (auto split: sum.splits if_splits)

lemma js_toString_throws: "\<not> has_string_form v \<longleftrightarrow> js_toString v = Inl TypeError"
proof (cases "js_toString v")
  case (Inl e)
  then show ?thesis using js_toString_total(1)[of v] by (cases e) simp
next
  case (Inr s)
  then show ?thesis using js_toString_total(1)[of v] by simp
qed


text \<open>
  An object with a \<open>toString\<close> property of its own has no string form, alone or inside an
  array; numbers print in decimal, and \<open>null\<close> inside an array prints as nothing.
\<close>

lemma js_toString_examples:
  "js_toString (JObj [(''toString'', JNum 1)]) = Inl TypeError"
  "js_toString (JArr [JStr ''a'', JObj [(''toString'', JNum 1)]]) = Inl TypeError"
  "js_toString (JObj [(''a'', JNum 1)]) = Inr ''[object Object]''"
  "js_toString (JArr [JNum 12, JNull, JArr [JNum (- 3), JBool True]]) = Inr ''12,,-3,true''"
  by code_simp+

text \<open>A string of no-break spaces is blank.\<close>

lemma no_break_space_is_blank:
  "\<not> isNonEmptyString (JStr [CHR 0xA0])"
  "\<not> isNonEmptyString (JStr [CHR 0xA0, CHR '' '', CHR 0x09, CHR 0xA0])"
  "trimStart [CHR 0xA0, CHR ''a''] = ''a''"
  by code_simp+

subsection \<open>Request-body adapter\<close>

lemma assignProp_frame:
  "length (assignProp st a k v) = length st \<and> (\<forall>b. b \<noteq> a \<longrightarrow> assignProp st a k v ! b = st ! b)"
  by (simp add: assignProp_def)

lemma deleteProp_frame:
  "length (deleteProp st a k) = length st \<and> (\<forall>b. b \<noteq> a \<longrightarrow> deleteProp st a k ! b = st ! b)"
  by (simp add: deleteProp_def)

lemma map_of_delete_key:
  "map_of (AList.delete k fs) k' = (if k' = k then None else map_of fs k')"
  by (simp add: delete_conv')

lemma show_nat_last: "last (show_nat n) = char_of (48 + n mod 10)"
  by (subst show_nat.simps) simp

lemma show_nat_not_instructions: "show_nat n \<noteq> ''instructions''"
proof
  assume "show_nat n = ''instructions''"
  then have "last (show_nat n) = CHR ''s''" by simp
  then have "char_of (48 + n mod 10) = CHR ''s''" by (simp only: show_nat_last)
  then have "of_char (char_of (48 + n mod 10)) = (of_char CHR ''s'' :: nat)" by simp
  then show False by (simp add: of_char_of)
qed

lemma own_instructions:
  "(case map_of (spread v) ''instructions'' of Some x \<Rightarrow> x | None \<Rightarrow> JUndefined) =
     dot v ''instructions''"
proof (cases v)
  case (JArr xs)
  have "\<And>n. ''instructions'' \<noteq> show_nat n"
    using show_nat_not_instructions by metis
  then have "''instructions'' \<notin> set (map show_nat [0 ..< length xs])"
    by (auto simp del: show_nat.simps)
  then have "map_of (zip (map show_nat [0 ..< length xs]) xs) ''instructions'' = None"
    by (simp add: map_of_zip_is_None del: show_nat.simps)
  then have "map_of (spread v) ''instructions'' = None"
    using JArr by (simp only: spread.simps)
  moreover have "dot v ''instructions'' = JUndefined" using JArr by simp
  ultimately show ?thesis by (simp only: option.case)
next
  case (JStr s)
  have "\<And>n. ''instructions'' \<noteq> show_nat n"
    using show_nat_not_instructions by metis
  then have "''instructions'' \<notin> set (map show_nat [0 ..< length s])"
    by (auto simp del: show_nat.simps)
  then have "map_of (zip (map show_nat [0 ..< length s]) (map (\<lambda>c. JStr [c]) s))
               ''instructions'' = None"
    by (simp add: map_of_zip_is_None del: show_nat.simps)
  then have "map_of (spread v) ''instructions'' = None"
    using JStr by (simp only: spread.simps)
  moreover have "dot v ''instructions'' = JUndefined" using JStr by simp
  ultimately show ?thesis by (simp only: option.case)
qed simp_all

lemma hasClient_eq:
  "isNonEmptyString (JStr (case v of JStr s \<Rightarrow> s | _ \<Rightarrow> [])) = isNonEmptyString v"
  by (cases v) (simp_all add: isNonEmptyString_def trim_def)

text \<open>The strip loop writes to the copy only, whether it ends or throws.\<close>

lemma stripFieldsLoop_frame:
  "stripFieldsLoop fs p (st, acc) = (st', out) \<Longrightarrow>
     length st' = length st \<and> (\<forall>b. b \<noteq> p \<longrightarrow> st' ! b = st ! b)"
proof (induction fs arbitrary: st acc)
  case Nil
  then show ?case by simp
next
  case (Cons field rest)
  show ?case
  proof (cases "js_toString field")
    case (Inl e)
    with Cons.prems show ?thesis by simp
  next
    case (Inr key)
    show ?thesis
    proof (cases "hasOwnProperty (st ! p) key")
      case False
      with Inr Cons.prems have "stripFieldsLoop rest p (st, acc) = (st', out)" by simp
      from Cons.IH[OF this] show ?thesis .
    next
      case True
      with Inr Cons.prems have
        "stripFieldsLoop rest p (deleteProp st p key, acc @ [field]) = (st', out)" by simp
      from Cons.IH[OF this] show ?thesis by (simp add: deleteProp_def)
    qed
  qed
qed

text \<open>It throws exactly when one of the fields has no string form.\<close>

lemma stripFieldsLoop_returns:
  "(\<exists>acc'. snd (stripFieldsLoop fs p (st, acc)) = Inr acc') \<longleftrightarrow> list_all has_string_form fs"
proof (induction fs arbitrary: st acc)
  case Nil
  then show ?case by simp
next
  case (Cons field rest)
  show ?case
  proof (cases "js_toString field")
    case (Inl e)
    then have "\<not> has_string_form field" using js_toString_total(1)[of field] by simp
    with Inl show ?thesis by simp
  next
    case (Inr key)
    then have "has_string_form field" using js_toString_total(1)[of field] by simp
    with Inr Cons.IH show ?thesis by simp
  qed
qed

text \<open>
  When it ends, the fields it recorded were own properties of the object, and they are
  the properties the object has lost.
\<close>

lemma stripFieldsLoop_effect:
  "stripFieldsLoop fs p (st, acc) = (st', Inr acc') \<Longrightarrow> p < length st \<Longrightarrow>
     (\<exists>new. acc' = acc @ new \<and>
        (\<forall>f \<in> set new. \<exists>key. js_toString f = Inr key \<and> hasOwnProperty (st ! p) key) \<and>
        (\<forall>k. map_of (spread (st' ! p)) k =
              (if Inr k \<in> js_toString ` set new then None else map_of (spread (st ! p)) k)))"
proof (induction fs arbitrary: st acc)
  case Nil
  then show ?case by simp
next
  case (Cons field rest)
  show ?case
  proof (cases "js_toString field")
    case (Inl e)
    with Cons.prems show ?thesis by simp
  next
    case (Inr key)
    show ?thesis
    proof (cases "hasOwnProperty (st ! p) key")
      case False
      with Inr Cons.prems have "stripFieldsLoop rest p (st, acc) = (st', Inr acc')" by simp
      from Cons.IH[OF this Cons.prems(2)] show ?thesis .
    next
      case True
      let ?st1 = "deleteProp st p key"
      from True Inr Cons.prems have
        run: "stripFieldsLoop rest p (?st1, acc @ [field]) = (st', Inr acc')" by simp
      have len1: "p < length ?st1" using Cons.prems(2) by (simp add: deleteProp_def)
      from Cons.IH[OF run len1] obtain new where
        a: "acc' = (acc @ [field]) @ new" and
        h: "\<forall>f \<in> set new. \<exists>key. js_toString f = Inr key \<and> hasOwnProperty (?st1 ! p) key" and
        m: "\<forall>k. map_of (spread (st' ! p)) k =
                (if Inr k \<in> js_toString ` set new then None else map_of (spread (?st1 ! p)) k)"
        by blast
      have cell: "spread (?st1 ! p) = AList.delete key (spread (st ! p))"
        using Cons.prems(2) by (simp add: deleteProp_def)
      have "\<forall>k. map_of (spread (st' ! p)) k =
                (if Inr k \<in> js_toString ` set (field # new) then None
                 else map_of (spread (st ! p)) k)"
      proof
        fix k
        show "map_of (spread (st' ! p)) k =
                (if Inr k \<in> js_toString ` set (field # new) then None
                 else map_of (spread (st ! p)) k)"
        proof (cases "Inr k \<in> js_toString ` set new")
          case True
          with m show ?thesis by simp
        next
          case nin: False
          with m have "map_of (spread (st' ! p)) k = map_of (AList.delete key (spread (st ! p))) k"
            by (simp add: cell)
          also have "\<dots> = (if k = key then None else map_of (spread (st ! p)) k)"
            by (simp add: map_of_delete_key)
          finally show ?thesis using nin Inr by auto
        qed
      qed
      moreover have "\<forall>f \<in> set (field # new).
                       \<exists>key. js_toString f = Inr key \<and> hasOwnProperty (st ! p) key"
      proof
        fix f assume "f \<in> set (field # new)"
        then consider "f = field" | "f \<in> set new" by auto
        then show "\<exists>key. js_toString f = Inr key \<and> hasOwnProperty (st ! p) key"
        proof cases
          case 1
          with Inr True show ?thesis by simp
        next
          case 2
          with h obtain k where k: "js_toString f = Inr k" "hasOwnProperty (?st1 ! p) k" by blast
          from k(2) cell dom_delete_subset[of key "spread (st ! p)"]
          have "hasOwnProperty (st ! p) k" by (auto simp: hasOwnProperty_def)
          with k(1) show ?thesis by simp
        qed
      qed
      moreover have "acc' = acc @ (field # new)" using a by simp
      ultimately show ?thesis by blast
    qed
  qed
qed

lemma applyInstructions_frame:
  "applyInstructions st body p settings serverText ci hci = (st', ann) \<Longrightarrow>
     length st' = length st \<and> (\<forall>b. b \<noteq> p \<longrightarrow> st' ! b = st ! b)"
  by (auto simp: applyInstructions_def Let_def assignProp_def split: if_splits)

lemma instructionStep_frame:
  assumes "instructionStep st body p settings scope ci hci = (st', ann)"
  shows "length st' = length st \<and> (\<forall>b. b \<noteq> p \<longrightarrow> st' ! b = st ! b)"
proof (cases "\<exists>serverText. instructions_text settings = JStr serverText \<and> scope \<and> isNonEmptyString (JStr serverText)")
  case True
  then obtain serverText where "instructions_text settings = JStr serverText" "scope" "isNonEmptyString (JStr serverText)"
    by blast
  with assms have "applyInstructions st body p settings serverText ci hci = (st', ann)"
    by (simp add: instructionStep_def)
  from applyInstructions_frame[OF this] show ?thesis .
next
  case False
  with assms have "st' = st" by (auto simp: instructionStep_def split: json.splits if_splits)
  then show ?thesis by simp
qed

text \<open>Without a server text that is a non-blank string, the instruction step does nothing.\<close>

lemma instructionStep_blank:
  "\<not> isNonEmptyString (instructions_text settings) \<Longrightarrow>
     instructionStep st body p settings scope ci hci = (st, JNull)"
  by (auto simp: instructionStep_def split: json.splits)

lemma instructionStep_unchanged:
  "instructionStep st body p settings scope ci hci = (st', JNull) \<Longrightarrow> st' = st"
  by (auto simp: instructionStep_def applyInstructions_def Let_def split: json.splits if_splits)

text \<open>The instruction step writes the \<open>instructions\<close> field of the copy and no other.\<close>

lemma instructionStep_other_keys:
  assumes "instructionStep st body p settings scope ci hci = (st', ann)" and "p < length st"
    and "k \<noteq> ''instructions''"
  shows "map_of (spread (st' ! p)) k = map_of (spread (st ! p)) k"
  using assms
  by (auto simp: instructionStep_def applyInstructions_def Let_def assignProp_def update_conv'
      split: json.splits if_splits)

lemma adapt_passthrough:
  assumes "\<not> truthy (st ! body) \<or> typeof (st ! body) \<noteq> ''object'' \<or>
           \<not> enabled (resolveAdapterConfig cfg dflt)"
  shows "adaptCodexRequestBody st body cli cfg dflt =
           (st, Inr \<lparr> result_body = body, result_applied = False,
                  result_changes = \<lparr> strippedFields = [], changes_instructions = JNull \<rparr> \<rparr>)"
  using assms by (auto simp: adaptCodexRequestBody_def Let_def)

lemma adapt_active:
  assumes "truthy (st ! body)" "typeof (st ! body) = ''object''"
    "enabled (resolveAdapterConfig cfg dflt)"
    "stripFields (st @ [JObj (spread (st ! body))]) (length st) cli (resolveAdapterConfig cfg dflt) =
       (st2, Inr stripped)"
    "instructionStep st2 body (length st) (resolveAdapterConfig cfg dflt)
       (instructions_applyWhen (resolveAdapterConfig cfg dflt) = ''all'' \<or> \<not> cli)
       (case dot (st2 ! body) ''instructions'' of JStr s \<Rightarrow> s | _ \<Rightarrow> [])
       (isNonEmptyString (JStr (case dot (st2 ! body) ''instructions'' of JStr s \<Rightarrow> s | _ \<Rightarrow> []))) =
       (st3, annotation)"
  shows "adaptCodexRequestBody st body cli cfg dflt =
           (st3, Inr \<lparr> result_body = length st,
                  result_applied = (stripped \<noteq> [] \<or> annotation \<noteq> JNull),
                  result_changes = \<lparr> strippedFields = stripped, changes_instructions = annotation \<rparr> \<rparr>)"
  using assms
  by (simp add: adaptCodexRequestBody_def Let_def alloc_def)

lemma adapt_throws:
  assumes "truthy (st ! body)" "typeof (st ! body) = ''object''"
    "enabled (resolveAdapterConfig cfg dflt)"
    "stripFields (st @ [JObj (spread (st ! body))]) (length st) cli (resolveAdapterConfig cfg dflt) =
       (st2, Inl e)"
  shows "adaptCodexRequestBody st body cli cfg dflt = (st2, Inl e)"
  using assms
  by (simp add: adaptCodexRequestBody_def Let_def alloc_def)

lemma stripFields_frame:
  assumes "stripFields (st @ [JObj (spread (st ! body))]) (length st) cli settings = (st2, out)"
  shows "length st2 = Suc (length st) \<and> (\<forall>b < length st. st2 ! b = st ! b)"
proof (cases "\<not> cli \<and> stripFields_enabled settings")
  case False
  with assms show ?thesis by (auto simp: stripFields_def nth_append)
next
  case True
  with assms have "stripFieldsLoop (stripFields_fields settings) (length st)
             (st @ [JObj (spread (st ! body))], []) = (st2, out)"
    by (simp add: stripFields_def)
  from stripFieldsLoop_frame[OF this] show ?thesis by (auto simp: nth_append)
qed

lemma stripFields_returns:
  "(\<exists>stripped. snd (stripFields st p cli settings) = Inr stripped) \<longleftrightarrow>
     cli \<or> \<not> stripFields_enabled settings \<or> list_all has_string_form (stripFields_fields settings)"
  using stripFieldsLoop_returns[of "stripFields_fields settings" p st "[]"]
  by (auto simp: stripFields_def)

lemma stripFields_effect:
  assumes "stripFields (st @ [JObj (spread (st ! body))]) (length st) cli settings =
             (st2, Inr stripped)"
  shows "(\<forall>f \<in> set stripped. \<exists>key. js_toString f = Inr key \<and> hasOwnProperty (st ! body) key) \<and>
         (\<forall>k. map_of (spread (st2 ! length st)) k =
              (if Inr k \<in> js_toString ` set stripped then None else map_of (spread (st ! body)) k))"
proof (cases "\<not> cli \<and> stripFields_enabled settings")
  case False
  with assms show ?thesis by (auto simp: stripFields_def nth_append)
next
  case True
  with assms have "stripFieldsLoop (stripFields_fields settings) (length st)
             (st @ [JObj (spread (st ! body))], []) = (st2, Inr stripped)"
    by (simp add: stripFields_def)
  from stripFieldsLoop_effect[OF this] show ?thesis
    by (auto simp: nth_append hasOwnProperty_def)
qed

text \<open>The two outcomes of a call, and when each occurs.\<close>

lemma adapt_outcome:
  assumes "adaptCodexRequestBody st body cli cfg dflt = (st', outcome)"
  shows "(\<exists>r. outcome = Inr r) \<longleftrightarrow> adapterReturns (st ! body) cli (resolveAdapterConfig cfg dflt)"
proof (cases "\<not> truthy (st ! body) \<or> typeof (st ! body) \<noteq> ''object'' \<or>
           \<not> enabled (resolveAdapterConfig cfg dflt)")
  case True
  from adapt_passthrough[OF True] assms True show ?thesis by (auto simp: adapterReturns_def)
next
  case False
  let ?settings = "resolveAdapterConfig cfg dflt"
  let ?sf = "stripFields (st @ [JObj (spread (st ! body))]) (length st) cli ?settings"
  from False have act: "truthy (st ! body)" "typeof (st ! body) = ''object''" "enabled ?settings"
    by auto
  obtain st2 out where strip: "?sf = (st2, out)" by (cases ?sf)
  have ret: "(\<exists>stripped. out = Inr stripped) \<longleftrightarrow>
               cli \<or> \<not> stripFields_enabled ?settings \<or>
               list_all has_string_form (stripFields_fields ?settings)"
    using stripFields_returns[of "st @ [JObj (spread (st ! body))]" "length st" cli ?settings] strip
    by simp
  show ?thesis
  proof (cases out)
    case (Inl e)
    with adapt_throws[OF act] strip assms have "outcome = Inl e" by simp
    with Inl ret act show ?thesis by (auto simp: adapterReturns_def)
  next
    case (Inr stripped)
    obtain st3 ann where
      "instructionStep st2 body (length st) ?settings
         (instructions_applyWhen ?settings = ''all'' \<or> \<not> cli)
         (case dot (st2 ! body) ''instructions'' of JStr s \<Rightarrow> s | _ \<Rightarrow> [])
         (isNonEmptyString (JStr (case dot (st2 ! body) ''instructions'' of JStr s \<Rightarrow> s | _ \<Rightarrow> []))) =
         (st3, ann)"
      by (metis surj_pair)
    from adapt_active[OF act _ this] strip Inr assms have "\<exists>r. outcome = Inr r" by simp
    with Inr ret act show ?thesis by (auto simp: adapterReturns_def)
  qed
qed

text \<open>
  A call that passes the strip loop: the store after the loop, the fields stripped, and
  the result made of them.
\<close>

lemma adapt_returned:
  assumes "body < length st"
    and "truthy (st ! body)" "typeof (st ! body) = ''object''"
    and "enabled (resolveAdapterConfig cfg dflt)"
    and "adaptCodexRequestBody st body cli cfg dflt = (st', Inr r)"
  shows "\<exists>st2 stripped annotation.
           length st2 = Suc (length st) \<and> (\<forall>b < length st. st2 ! b = st ! b) \<and>
           (\<forall>f \<in> set stripped. \<exists>key. js_toString f = Inr key \<and> hasOwnProperty (st ! body) key) \<and>
           (\<forall>k. map_of (spread (st2 ! length st)) k =
              (if Inr k \<in> js_toString ` set stripped then None else map_of (spread (st ! body)) k)) \<and>
           instructionStep st2 body (length st) (resolveAdapterConfig cfg dflt)
             (instructions_applyWhen (resolveAdapterConfig cfg dflt) = ''all'' \<or> \<not> cli)
             (case dot (st ! body) ''instructions'' of JStr s \<Rightarrow> s | _ \<Rightarrow> [])
             (isNonEmptyString (dot (st ! body) ''instructions'')) = (st', annotation) \<and>
           r = \<lparr> result_body = length st,
                 result_applied = (stripped \<noteq> [] \<or> annotation \<noteq> JNull),
                 result_changes = \<lparr> strippedFields = stripped, changes_instructions = annotation \<rparr> \<rparr>"
proof -
  let ?settings = "resolveAdapterConfig cfg dflt"
  let ?sf = "stripFields (st @ [JObj (spread (st ! body))]) (length st) cli ?settings"
  obtain st2 out where strip: "?sf = (st2, out)" by (cases ?sf)
  from stripFields_frame[OF strip] have
    l2: "length st2 = Suc (length st)" and f2: "\<forall>b < length st. st2 ! b = st ! b" by blast+
  have b2: "st2 ! body = st ! body" using f2 assms(1) by simp
  show ?thesis
  proof (cases out)
    case (Inl e)
    with adapt_throws[OF assms(2,3,4)] strip assms(5) show ?thesis by simp
  next
    case (Inr stripped)
    with strip have strip': "?sf = (st2, Inr stripped)" by simp
    obtain st3 ann where
      step: "instructionStep st2 body (length st) ?settings
         (instructions_applyWhen ?settings = ''all'' \<or> \<not> cli)
         (case dot (st2 ! body) ''instructions'' of JStr s \<Rightarrow> s | _ \<Rightarrow> [])
         (isNonEmptyString (JStr (case dot (st2 ! body) ''instructions'' of JStr s \<Rightarrow> s | _ \<Rightarrow> []))) =
         (st3, ann)"
      by (metis surj_pair)
    from adapt_active[OF assms(2,3,4) strip' step] assms(5) have
      outcome: "st' = st3"
        "r = \<lparr> result_body = length st, result_applied = (stripped \<noteq> [] \<or> ann \<noteq> JNull),
               result_changes = \<lparr> strippedFields = stripped, changes_instructions = ann \<rparr> \<rparr>"
      by simp_all
    from step have "instructionStep st2 body (length st) ?settings
         (instructions_applyWhen ?settings = ''all'' \<or> \<not> cli)
         (case dot (st ! body) ''instructions'' of JStr s \<Rightarrow> s | _ \<Rightarrow> [])
         (isNonEmptyString (dot (st ! body) ''instructions'')) = (st', ann)"
      by (simp add: b2 hasClient_eq outcome(1))
    with stripFields_effect[OF strip'] l2 f2 outcome(2) show ?thesis by blast
  qed
qed

text \<open>The frame of a call: no cell that existed before it is written, whatever its outcome.\<close>

lemma adapt_frame:
  assumes "adaptCodexRequestBody st body cli cfg dflt = (st', outcome)"
  shows "\<forall>a < length st. st' ! a = st ! a"
proof (cases "\<not> truthy (st ! body) \<or> typeof (st ! body) \<noteq> ''object'' \<or>
           \<not> enabled (resolveAdapterConfig cfg dflt)")
  case True
  from adapt_passthrough[OF True] assms show ?thesis by simp
next
  case False
  let ?settings = "resolveAdapterConfig cfg dflt"
  let ?sf = "stripFields (st @ [JObj (spread (st ! body))]) (length st) cli ?settings"
  from False have act: "truthy (st ! body)" "typeof (st ! body) = ''object''" "enabled ?settings"
    by auto
  obtain st2 out where strip: "?sf = (st2, out)" by (cases ?sf)
  from stripFields_frame[OF strip] have
    l2: "length st2 = Suc (length st)" and f2: "\<forall>b < length st. st2 ! b = st ! b" by blast+
  show ?thesis
  proof (cases out)
    case (Inl e)
    with adapt_throws[OF act] strip assms have "st' = st2" by simp
    with f2 show ?thesis by simp
  next
    case (Inr stripped)
    obtain st3 ann where
      step: "instructionStep st2 body (length st) ?settings
         (instructions_applyWhen ?settings = ''all'' \<or> \<not> cli)
         (case dot (st2 ! body) ''instructions'' of JStr s \<Rightarrow> s | _ \<Rightarrow> [])
         (isNonEmptyString (JStr (case dot (st2 ! body) ''instructions'' of JStr s \<Rightarrow> s | _ \<Rightarrow> []))) =
         (st3, ann)"
      by (metis surj_pair)
    from adapt_active[OF act _ step] strip Inr assms have "st' = st3" by simp
    moreover from instructionStep_frame[OF step] have "\<forall>b. b \<noteq> length st \<longrightarrow> st3 ! b = st2 ! b"
      by blast
    ultimately show ?thesis using f2 by simp
  qed
qed

lemma cell_instructions:
  assumes "\<forall>k. map_of (spread c) k =
              (if Inr k \<in> js_toString ` set stripped then None else map_of (spread b) k)"
  shows "dot c ''instructions'' =
           (if Inr ''instructions'' \<in> js_toString ` set stripped
            then JUndefined else dot b ''instructions'')"
proof -
  have m: "map_of (spread c) ''instructions'' =
           (if Inr ''instructions'' \<in> js_toString ` set stripped
            then None else map_of (spread b) ''instructions'')"
    using assms by blast
  have "dot c ''instructions'' =
          (case map_of (spread c) ''instructions'' of Some x \<Rightarrow> x | None \<Rightarrow> JUndefined)"
    by (simp only: own_instructions)
  also have "\<dots> = (if Inr ''instructions'' \<in> js_toString ` set stripped then JUndefined
          else (case map_of (spread b) ''instructions'' of Some x \<Rightarrow> x | None \<Rightarrow> JUndefined))"
    by (simp add: m)
  also have "\<dots> = (if Inr ''instructions'' \<in> js_toString ` set stripped
          then JUndefined else dot b ''instructions'')"
    by (simp only: own_instructions)
  finally show ?thesis .
qed

text \<open>
  A field recorded in \<open>changes.strippedFields\<close> was a property of the input and, unless
  it is \<open>instructions\<close>, is absent from the returned object.
\<close>

lemma stripped_fields_are_gone:
  assumes "body < length st"
    and "adaptCodexRequestBody st body isCodexCLI adapterConfig defaultText = (st', Inr r)"
    and "f \<in> set (strippedFields (result_changes r))"
    and "js_toString f = Inr key" and "key \<noteq> ''instructions''"
  shows "hasOwnProperty (st ! body) key \<and> \<not> hasOwnProperty (st' ! result_body r) key"
proof (cases "\<not> truthy (st ! body) \<or> typeof (st ! body) \<noteq> ''object'' \<or>
           \<not> enabled (resolveAdapterConfig adapterConfig defaultText)")
  case True
  from adapt_passthrough[OF True] assms(2,3) show ?thesis by auto
next
  case False
  let ?settings = "resolveAdapterConfig adapterConfig defaultText"
  from False have act: "truthy (st ! body)" "typeof (st ! body) = ''object''" "enabled ?settings"
    by auto
  from adapt_returned[OF assms(1) act assms(2)] obtain st2 stripped annotation where
    l2: "length st2 = Suc (length st)" and
    own: "\<forall>f \<in> set stripped. \<exists>key. js_toString f = Inr key \<and> hasOwnProperty (st ! body) key" and
    m2: "\<forall>k. map_of (spread (st2 ! length st)) k =
              (if Inr k \<in> js_toString ` set stripped then None else map_of (spread (st ! body)) k)" and
    step: "instructionStep st2 body (length st) ?settings
             (instructions_applyWhen ?settings = ''all'' \<or> \<not> isCodexCLI)
             (case dot (st ! body) ''instructions'' of JStr s \<Rightarrow> s | _ \<Rightarrow> [])
             (isNonEmptyString (dot (st ! body) ''instructions'')) = (st', annotation)" and
    r: "r = \<lparr> result_body = length st,
               result_applied = (stripped \<noteq> [] \<or> annotation \<noteq> JNull),
               result_changes = \<lparr> strippedFields = stripped, changes_instructions = annotation \<rparr> \<rparr>"
    by blast
  from assms(3) r have fin: "f \<in> set stripped" by simp
  with own assms(4) have o: "hasOwnProperty (st ! body) key" by fastforce
  from fin assms(4) have "Inr key \<in> js_toString ` set stripped" by force
  with m2 have "map_of (spread (st2 ! length st)) key = None" by simp
  moreover from instructionStep_other_keys[OF step _ assms(5)] l2
  have "map_of (spread (st' ! length st)) key = map_of (spread (st2 ! length st)) key" by simp
  ultimately have "map_of (spread (st' ! result_body r)) key = None" using r by simp
  then have "\<not> hasOwnProperty (st' ! result_body r) key"
    by (simp add: hasOwnProperty_def map_of_eq_None_iff)
  with o show ?thesis by simp
qed

text \<open>
  Claim C8. Let \<open>body\<close> be an allocated cell of the store. A call of the adapter leaves
  the cell of its argument, and every other cell that existed before the call, as it
  was, whether it returns or throws: the input object has no field added, removed or
  changed. The call returns unless a configured strip field has no string form. If the
  object returned as \<open>result.body\<close> differs from the input, it lives in another cell than
  the input. Every field recorded in \<open>changes.strippedFields\<close> was an own property of the
  input, and \<open>applied\<close> is true exactly when that list is not empty or the annotation
  \<open>changes.instructions\<close> is not \<open>null\<close>.
\<close>

theorem adapter_never_mutates_input:
  assumes "body < length st"
    and "adaptCodexRequestBody st body isCodexCLI adapterConfig defaultText = (st', outcome)"
  shows "st' ! body = st ! body \<and>
         (\<forall>a < length st. st' ! a = st ! a) \<and>
         ((\<exists>r. outcome = Inr r) \<longleftrightarrow>
            adapterReturns (st ! body) isCodexCLI (resolveAdapterConfig adapterConfig defaultText)) \<and>
         (\<forall>r. outcome = Inr r \<longrightarrow>
            (st' ! result_body r \<noteq> st ! body \<longrightarrow> result_body r \<noteq> body) \<and>
            (\<forall>f \<in> set (strippedFields (result_changes r)).
               \<exists>key. js_toString f = Inr key \<and> hasOwnProperty (st ! body) key) \<and>
            (result_applied r \<longleftrightarrow>
               strippedFields (result_changes r) \<noteq> [] \<or>
               changes_instructions (result_changes r) \<noteq> JNull))"
proof -
  note frame = adapt_frame[OF assms(2)]
  from frame assms(1) have same: "st' ! body = st ! body" by simp
  have returned:
    "(st' ! result_body r \<noteq> st ! body \<longrightarrow> result_body r \<noteq> body) \<and>
     (\<forall>f \<in> set (strippedFields (result_changes r)).
        \<exists>key. js_toString f = Inr key \<and> hasOwnProperty (st ! body) key) \<and>
     (result_applied r \<longleftrightarrow>
        strippedFields (result_changes r) \<noteq> [] \<or>
        changes_instructions (result_changes r) \<noteq> JNull)" if outcome: "outcome = Inr r" for r
  proof (cases "\<not> truthy (st ! body) \<or> typeof (st ! body) \<noteq> ''object'' \<or>
             \<not> enabled (resolveAdapterConfig adapterConfig defaultText)")
    case True
    from adapt_passthrough[OF True] assms(2) outcome show ?thesis by auto
  next
    case False
    then have act: "truthy (st ! body)" "typeof (st ! body) = ''object''"
      "enabled (resolveAdapterConfig adapterConfig defaultText)" by auto
    from assms(2) outcome have
      "adaptCodexRequestBody st body isCodexCLI adapterConfig defaultText = (st', Inr r)" by simp
    from adapt_returned[OF assms(1) act this] obtain stripped annotation where
      own: "\<forall>f \<in> set stripped. \<exists>key. js_toString f = Inr key \<and> hasOwnProperty (st ! body) key" and
      r: "r = \<lparr> result_body = length st,
                 result_applied = (stripped \<noteq> [] \<or> annotation \<noteq> JNull),
                 result_changes = \<lparr> strippedFields = stripped, changes_instructions = annotation \<rparr> \<rparr>"
      by blast
    from r assms(1) have "result_body r \<noteq> body" by simp
    with own r show ?thesis by simp
  qed
  from same frame adapt_outcome[OF assms(2)] returned show ?thesis by blast
qed

text \<open>
  Claim C9, as the code has it. When the resolved server text is not a non-blank string,
  the call returns unless a configured strip field has no string form; its result
  records \<open>changes.instructions\<close> as \<open>null\<close> in every mode, and the \<open>instructions\<close> field
  of the returned body is the input's, unless field stripping removed it because
  \<open>instructions\<close> is itself a configured strip field.
\<close>

theorem blank_server_text_no_injection:
  assumes "body < length st"
    and "\<not> isNonEmptyString (instructions_text (resolveAdapterConfig adapterConfig defaultText))"
    and "adaptCodexRequestBody st body isCodexCLI adapterConfig defaultText = (st', outcome)"
  shows "((\<exists>r. outcome = Inr r) \<longleftrightarrow>
            adapterReturns (st ! body) isCodexCLI (resolveAdapterConfig adapterConfig defaultText)) \<and>
         (\<forall>r. outcome = Inr r \<longrightarrow>
            changes_instructions (result_changes r) = JNull \<and>
            dot (st' ! result_body r) ''instructions'' =
              (if Inr ''instructions'' \<in> js_toString ` set (strippedFields (result_changes r))
               then JUndefined else dot (st ! body) ''instructions''))"
proof -
  let ?settings = "resolveAdapterConfig adapterConfig defaultText"
  have returned:
    "changes_instructions (result_changes r) = JNull \<and>
     dot (st' ! result_body r) ''instructions'' =
       (if Inr ''instructions'' \<in> js_toString ` set (strippedFields (result_changes r))
        then JUndefined else dot (st ! body) ''instructions'')" if outcome: "outcome = Inr r" for r
  proof (cases "\<not> truthy (st ! body) \<or> typeof (st ! body) \<noteq> ''object'' \<or> \<not> enabled ?settings")
    case True
    from adapt_passthrough[OF True] assms(3) outcome show ?thesis by auto
  next
    case False
    then have act: "truthy (st ! body)" "typeof (st ! body) = ''object''" "enabled ?settings"
      by auto
    from assms(3) outcome have
      "adaptCodexRequestBody st body isCodexCLI adapterConfig defaultText = (st', Inr r)" by simp
    from adapt_returned[OF assms(1) act this] obtain st2 stripped annotation where
      m2: "\<forall>k. map_of (spread (st2 ! length st)) k =
              (if Inr k \<in> js_toString ` set stripped then None else map_of (spread (st ! body)) k)" and
      step: "instructionStep st2 body (length st) ?settings
               (instructions_applyWhen ?settings = ''all'' \<or> \<not> isCodexCLI)
               (case dot (st ! body) ''instructions'' of JStr s \<Rightarrow> s | _ \<Rightarrow> [])
               (isNonEmptyString (dot (st ! body) ''instructions'')) = (st', annotation)" and
      r: "r = \<lparr> result_body = length st,
                 result_applied = (stripped \<noteq> [] \<or> annotation \<noteq> JNull),
                 result_changes = \<lparr> strippedFields = stripped, changes_instructions = annotation \<rparr> \<rparr>"
      by blast
    from step instructionStep_blank[OF assms(2)] have "st' = st2" "annotation = JNull" by simp_all
    with cell_instructions[OF m2] r show ?thesis by simp
  qed
  from adapt_outcome[OF assms(3)] returned show ?thesis by blast
qed

text \<open>
  Claim C4, as the code has it. Let the body be an object, the adapter enabled, the
  resolved mode \<open>none\<close>, the scope applicable and the resolved server text non-blank.
  The call returns unless a configured strip field has no string form. If the client's
  \<open>instructions\<close> is not a non-blank string (absent, blank or not a string), the returned
  body's \<open>instructions\<close> is the server text and the annotation is
  \<open>{mode: 'none', clientMissing: true, fallback: true}\<close>; otherwise the annotation is
  \<open>null\<close> and the returned body's \<open>instructions\<close> is the client's (or absent, when field
  stripping removed it).
\<close>

theorem none_mode_backfills_blank_client:
  assumes "body < length st"
    and "truthy (st ! body)" "typeof (st ! body) = ''object''"
    and "enabled (resolveAdapterConfig adapterConfig defaultText)"
    and "instructions_mode (resolveAdapterConfig adapterConfig defaultText) = ''none''"
    and "instructions_applyWhen (resolveAdapterConfig adapterConfig defaultText) = ''all'' \<or> \<not> isCodexCLI"
    and "isNonEmptyString (instructions_text (resolveAdapterConfig adapterConfig defaultText))"
    and "adaptCodexRequestBody st body isCodexCLI adapterConfig defaultText = (st', outcome)"
  shows "((\<exists>r. outcome = Inr r) \<longleftrightarrow>
            adapterReturns (st ! body) isCodexCLI (resolveAdapterConfig adapterConfig defaultText)) \<and>
         (\<forall>r. outcome = Inr r \<longrightarrow>
            (if \<not> isNonEmptyString (dot (st ! body) ''instructions'')
             then dot (st' ! result_body r) ''instructions'' =
                    instructions_text (resolveAdapterConfig adapterConfig defaultText) \<and>
                  changes_instructions (result_changes r) =
                    JObj [(''mode'', JStr ''none''), (''clientMissing'', JBool True),
                          (''fallback'', JBool True)]
             else dot (st' ! result_body r) ''instructions'' =
                    (if Inr ''instructions'' \<in> js_toString ` set (strippedFields (result_changes r))
                     then JUndefined else dot (st ! body) ''instructions'') \<and>
                  changes_instructions (result_changes r) = JNull))"
proof -
  let ?settings = "resolveAdapterConfig adapterConfig defaultText"
  from assms(7) obtain serverText where serverText: "instructions_text ?settings = JStr serverText"
    by (cases "instructions_text ?settings") (simp_all add: isNonEmptyString_def)
  have returned:
    "if \<not> isNonEmptyString (dot (st ! body) ''instructions'')
     then dot (st' ! result_body r) ''instructions'' = instructions_text ?settings \<and>
          changes_instructions (result_changes r) =
            JObj [(''mode'', JStr ''none''), (''clientMissing'', JBool True),
                  (''fallback'', JBool True)]
     else dot (st' ! result_body r) ''instructions'' =
            (if Inr ''instructions'' \<in> js_toString ` set (strippedFields (result_changes r))
             then JUndefined else dot (st ! body) ''instructions'') \<and>
          changes_instructions (result_changes r) = JNull" if outcome: "outcome = Inr r" for r
  proof -
    from assms(8) outcome have
      "adaptCodexRequestBody st body isCodexCLI adapterConfig defaultText = (st', Inr r)" by simp
    from adapt_returned[OF assms(1,2,3,4) this] obtain st2 stripped annotation where
      l2: "length st2 = Suc (length st)" and
      m2: "\<forall>k. map_of (spread (st2 ! length st)) k =
              (if Inr k \<in> js_toString ` set stripped then None else map_of (spread (st ! body)) k)" and
      step: "instructionStep st2 body (length st) ?settings
               (instructions_applyWhen ?settings = ''all'' \<or> \<not> isCodexCLI)
               (case dot (st ! body) ''instructions'' of JStr s \<Rightarrow> s | _ \<Rightarrow> [])
               (isNonEmptyString (dot (st ! body) ''instructions'')) = (st', annotation)" and
      r: "r = \<lparr> result_body = length st,
                 result_applied = (stripped \<noteq> [] \<or> annotation \<noteq> JNull),
                 result_changes = \<lparr> strippedFields = stripped, changes_instructions = annotation \<rparr> \<rparr>"
      by blast
    show ?thesis
    proof (cases "isNonEmptyString (dot (st ! body) ''instructions'')")
      case True
      with step serverText assms(5,6,7) have "st' = st2" "annotation = JNull"
        by (simp_all add: instructionStep_def applyInstructions_def)
      with cell_instructions[OF m2] r True show ?thesis by simp
    next
      case False
      with step serverText assms(5,6,7) have
        "st' = assignProp st2 (length st) ''instructions'' (JStr serverText)"
        "annotation = JObj [(''mode'', JStr ''none''), (''clientMissing'', JBool True),
                            (''fallback'', JBool True)]"
        by (simp_all add: instructionStep_def applyInstructions_def)
      with False l2 r serverText show ?thesis by (simp add: assignProp_def update_conv')
    qed
  qed
  from adapt_outcome[OF assms(8)] returned show ?thesis by blast
qed

text \<open>
  The first test of the repository's suite: a client other than the Codex CLI, mode
  \<open>overwrite\<close>. The input object stays in cell 0; the result is a new object in cell 1.
\<close>

theorem adapter_never_mutates_input_witness:
  "(0::nat) < length [JObj [(''instructions'', JStr ''CLIENT''), (''temperature'', JNum 1)]] \<and>
   adaptCodexRequestBody [JObj [(''instructions'', JStr ''CLIENT''), (''temperature'', JNum 1)]] 0 False
       (JObj [(''instructions'', JObj [(''mode'', JStr ''overwrite''), (''text'', JStr ''SERVER'')])])
       (JStr ''DEFAULT'') =
     ([JObj [(''instructions'', JStr ''CLIENT''), (''temperature'', JNum 1)],
       JObj [(''instructions'', JStr ''SERVER'')]],
      Inr \<lparr> result_body = 1, result_applied = True,
        result_changes = \<lparr> strippedFields = [JStr ''temperature''],
          changes_instructions = JObj [(''mode'', JStr ''overwrite'')] \<rparr> \<rparr>) \<and>
   [JObj [(''instructions'', JStr ''CLIENT''), (''temperature'', JNum 1)],
       JObj [(''instructions'', JStr ''SERVER'')]] ! 0 =
     [JObj [(''instructions'', JStr ''CLIENT''), (''temperature'', JNum 1)]] ! 0 \<and>
   adapterReturns ([JObj [(''instructions'', JStr ''CLIENT''), (''temperature'', JNum 1)]] ! 0) False
     (resolveAdapterConfig
        (JObj [(''instructions'', JObj [(''mode'', JStr ''overwrite''), (''text'', JStr ''SERVER'')])])
        (JStr ''DEFAULT''))"
proof -
  have h1: "(0::nat) < length [JObj [(''instructions'', JStr ''CLIENT''), (''temperature'', JNum 1)]]"
    by simp
  have h2: "adaptCodexRequestBody [JObj [(''instructions'', JStr ''CLIENT''), (''temperature'', JNum 1)]] 0 False
       (JObj [(''instructions'', JObj [(''mode'', JStr ''overwrite''), (''text'', JStr ''SERVER'')])])
       (JStr ''DEFAULT'') =
     ([JObj [(''instructions'', JStr ''CLIENT''), (''temperature'', JNum 1)],
       JObj [(''instructions'', JStr ''SERVER'')]],
      Inr \<lparr> result_body = 1, result_applied = True,
        result_changes = \<lparr> strippedFields = [JStr ''temperature''],
          changes_instructions = JObj [(''mode'', JStr ''overwrite'')] \<rparr> \<rparr>)"
    by code_simp
  from adapter_never_mutates_input [OF h1 h2] h1 h2 show ?thesis by blast
qed

text \<open>
  A configured strip field with a \<open>toString\<close> property of its own: the call throws, and
  the input is as it was.
\<close>

lemma adapter_throws_on_field_without_string_form:
  "adaptCodexRequestBody [JObj [(''temperature'', JNum 1)]] 0 False
       (JObj [(''stripFields'',
               JObj [(''fields'', JArr [JStr ''temperature'', JObj [(''toString'', JNum 1)]])])])
       (JStr ''DEFAULT'') =
     ([JObj [(''temperature'', JNum 1)], JObj []], Inl TypeError)"
  by code_simp

text \<open>
  A blank configured text and no default, in mode \<open>overwrite\<close>: the client's
  instructions come back as they were sent.
\<close>

theorem blank_server_text_no_injection_witness:
  "(0::nat) < length [JObj [(''instructions'', JStr ''CLIENT'')]] \<and>
   \<not> isNonEmptyString (instructions_text (resolveAdapterConfig
        (JObj [(''instructions'', JObj [(''mode'', JStr ''overwrite''), (''text'', JStr ''  '')])])
        JUndefined)) \<and>
   adaptCodexRequestBody [JObj [(''instructions'', JStr ''CLIENT'')]] 0 False
       (JObj [(''instructions'', JObj [(''mode'', JStr ''overwrite''), (''text'', JStr ''  '')])])
       JUndefined =
     ([JObj [(''instructions'', JStr ''CLIENT'')], JObj [(''instructions'', JStr ''CLIENT'')]],
      Inr \<lparr> result_body = 1, result_applied = False,
        result_changes = \<lparr> strippedFields = [], changes_instructions = JNull \<rparr> \<rparr>) \<and>
   dot ([JObj [(''instructions'', JStr ''CLIENT'')], JObj [(''instructions'', JStr ''CLIENT'')]] ! 1)
       ''instructions'' = JStr ''CLIENT''"
proof -
  have h1: "(0::nat) < length [JObj [(''instructions'', JStr ''CLIENT'')]]"
    by simp
  have h2: "\<not> isNonEmptyString (instructions_text (resolveAdapterConfig
        (JObj [(''instructions'', JObj [(''mode'', JStr ''overwrite''), (''text'', JStr ''  '')])])
        JUndefined))"
    by code_simp
  have h3: "adaptCodexRequestBody [JObj [(''instructions'', JStr ''CLIENT'')]] 0 False
       (JObj [(''instructions'', JObj [(''mode'', JStr ''overwrite''), (''text'', JStr ''  '')])])
       JUndefined =
     ([JObj [(''instructions'', JStr ''CLIENT'')], JObj [(''instructions'', JStr ''CLIENT'')]],
      Inr \<lparr> result_body = 1, result_applied = False,
        result_changes = \<lparr> strippedFields = [], changes_instructions = JNull \<rparr> \<rparr>)"
    by code_simp
  from blank_server_text_no_injection [OF h1 h2 h3] h1 h2 h3 show ?thesis by simp
qed

text \<open>
  A configured text of no-break spaces is blank as well: nothing is injected, in mode
  \<open>overwrite\<close> and with no default.
\<close>

lemma no_break_space_server_text_not_injected:
  "adaptCodexRequestBody [JObj [(''instructions'', JStr ''CLIENT'')]] 0 False
       (JObj [(''instructions'',
               JObj [(''mode'', JStr ''overwrite''), (''text'', JStr [CHR 0xA0, CHR 0xA0])])])
       JUndefined =
     ([JObj [(''instructions'', JStr ''CLIENT'')], JObj [(''instructions'', JStr ''CLIENT'')]],
      Inr \<lparr> result_body = 1, result_applied = False,
        result_changes = \<lparr> strippedFields = [], changes_instructions = JNull \<rparr> \<rparr>)"
  by code_simp

text \<open>
  The claim as stated fails when \<open>instructions\<close> is itself a configured strip field: with
  a blank server text, the client's instructions do not come back unchanged, they are
  stripped.
\<close>

theorem blank_server_text_instructions_stripped:
  "\<not> isNonEmptyString (instructions_text (resolveAdapterConfig
        (JObj [(''instructions'', JObj [(''mode'', JStr ''overwrite''), (''text'', JStr ''  '')]),
               (''stripFields'', JObj [(''fields'', JArr [JStr ''instructions''])])])
        JUndefined)) \<and>
   adaptCodexRequestBody [JObj [(''instructions'', JStr ''CLIENT'')]] 0 False
       (JObj [(''instructions'', JObj [(''mode'', JStr ''overwrite''), (''text'', JStr ''  '')]),
              (''stripFields'', JObj [(''fields'', JArr [JStr ''instructions''])])])
       JUndefined =
     ([JObj [(''instructions'', JStr ''CLIENT'')], JObj []],
      Inr \<lparr> result_body = 1, result_applied = True,
        result_changes = \<lparr> strippedFields = [JStr ''instructions''],
          changes_instructions = JNull \<rparr> \<rparr>) \<and>
   dot ([JObj [(''instructions'', JStr ''CLIENT'')], JObj []] ! 1) ''instructions'' \<noteq>
     dot ([JObj [(''instructions'', JStr ''CLIENT'')]] ! 0) ''instructions''"
  by code_simp

text \<open>
  Mode \<open>none\<close> with the default text \<open>DEFAULT\<close>, a client other than the Codex CLI and
  a body without instructions: the default text is filled in.
\<close>

theorem none_mode_backfills_blank_client_witness:
  "(0::nat) < length [JObj [(''temperature'', JNum 1)]] \<and>
   truthy ([JObj [(''temperature'', JNum 1)]] ! 0) \<and>
   typeof ([JObj [(''temperature'', JNum 1)]] ! 0) = ''object'' \<and>
   enabled (resolveAdapterConfig (JObj [(''instructions'', JObj [(''mode'', JStr ''none'')])])
      (JStr ''DEFAULT'')) \<and>
   instructions_mode (resolveAdapterConfig (JObj [(''instructions'', JObj [(''mode'', JStr ''none'')])])
      (JStr ''DEFAULT'')) = ''none'' \<and>
   isNonEmptyString (instructions_text (resolveAdapterConfig
      (JObj [(''instructions'', JObj [(''mode'', JStr ''none'')])]) (JStr ''DEFAULT''))) \<and>
   adaptCodexRequestBody [JObj [(''temperature'', JNum 1)]] 0 False
       (JObj [(''instructions'', JObj [(''mode'', JStr ''none'')])]) (JStr ''DEFAULT'') =
     ([JObj [(''temperature'', JNum 1)], JObj [(''instructions'', JStr ''DEFAULT'')]],
      Inr \<lparr> result_body = 1, result_applied = True,
        result_changes = \<lparr> strippedFields = [JStr ''temperature''],
          changes_instructions =
            JObj [(''mode'', JStr ''none''), (''clientMissing'', JBool True),
                  (''fallback'', JBool True)] \<rparr> \<rparr>) \<and>
   dot ([JObj [(''temperature'', JNum 1)], JObj [(''instructions'', JStr ''DEFAULT'')]] ! 1)
       ''instructions'' =
     instructions_text (resolveAdapterConfig
       (JObj [(''instructions'', JObj [(''mode'', JStr ''none'')])]) (JStr ''DEFAULT''))"
proof -
  let ?cfg = "JObj [(''instructions'', JObj [(''mode'', JStr ''none'')])]"
  let ?st = "[JObj [(''temperature'', JNum 1)]]"
  have h1: "(0::nat) < length ?st" by simp
  have h2: "truthy (?st ! 0)" by simp
  have h3: "typeof (?st ! 0) = ''object''" by simp
  have h4: "enabled (resolveAdapterConfig ?cfg (JStr ''DEFAULT''))" by code_simp
  have h5: "instructions_mode (resolveAdapterConfig ?cfg (JStr ''DEFAULT'')) = ''none''"
    by code_simp
  have h6: "instructions_applyWhen (resolveAdapterConfig ?cfg (JStr ''DEFAULT'')) = ''all'' \<or> \<not> False"
    by simp
  have h7: "isNonEmptyString (instructions_text (resolveAdapterConfig ?cfg (JStr ''DEFAULT'')))"
    by code_simp
  have h8: "adaptCodexRequestBody ?st 0 False ?cfg (JStr ''DEFAULT'') =
     ([JObj [(''temperature'', JNum 1)], JObj [(''instructions'', JStr ''DEFAULT'')]],
      Inr \<lparr> result_body = 1, result_applied = True,
        result_changes = \<lparr> strippedFields = [JStr ''temperature''],
          changes_instructions =
            JObj [(''mode'', JStr ''none''), (''clientMissing'', JBool True),
                  (''fallback'', JBool True)] \<rparr> \<rparr>)"
    by code_simp
  have blank: "\<not> isNonEmptyString (dot (?st ! 0) ''instructions'')"
    by code_simp
  from none_mode_backfills_blank_client [OF h1 h2 h3 h4 h5 h6 h7 h8] blank h1 h2 h3 h4 h5 h7 h8
  show ?thesis by simp
qed

text \<open>
  Client instructions made of no-break spaces are blank as well, and are replaced by the
  server text.
\<close>

lemma none_mode_backfills_no_break_space:
  "adaptCodexRequestBody [JObj [(''instructions'', JStr [CHR 0xA0])]] 0 False
       (JObj [(''instructions'', JObj [(''mode'', JStr ''none'')])]) (JStr ''DEFAULT'') =
     ([JObj [(''instructions'', JStr [CHR 0xA0])], JObj [(''instructions'', JStr ''DEFAULT'')]],
      Inr \<lparr> result_body = 1, result_applied = True,
        result_changes = \<lparr> strippedFields = [],
          changes_instructions =
            JObj [(''mode'', JStr ''none''), (''clientMissing'', JBool True),
                  (''fallback'', JBool True)] \<rparr> \<rparr>)"
  by code_simp

text \<open>
  The claim as stated fails when the adapter is disabled. The resolved mode is \<open>none\<close>,
  the client is not the Codex CLI, the resolved server text is \<open>SERVER\<close> and the body has
  no instructions; the call returns its argument as it is, with no instructions and no
  annotation.
\<close>

theorem none_mode_disabled_adapter_no_backfill:
  "instructions_mode (resolveAdapterConfig
      (JObj [(''enabled'', JBool False),
             (''instructions'', JObj [(''mode'', JStr ''none''), (''text'', JStr ''SERVER'')])])
      JUndefined) = ''none'' \<and>
   isNonEmptyString (instructions_text (resolveAdapterConfig
      (JObj [(''enabled'', JBool False),
             (''instructions'', JObj [(''mode'', JStr ''none''), (''text'', JStr ''SERVER'')])])
      JUndefined)) \<and>
   \<not> isNonEmptyString (dot ([JObj []] ! 0) ''instructions'') \<and>
   adaptCodexRequestBody [JObj []] 0 False
      (JObj [(''enabled'', JBool False),
             (''instructions'', JObj [(''mode'', JStr ''none''), (''text'', JStr ''SERVER'')])])
      JUndefined =
     ([JObj []],
      Inr \<lparr> result_body = 0, result_applied = False,
        result_changes = \<lparr> strippedFields = [], changes_instructions = JNull \<rparr> \<rparr>) \<and>
   dot ([JObj []] ! 0) ''instructions'' \<noteq> JStr ''SERVER''"
  by code_simp

text \<open>
  The vendored copy never fills in: in mode \<open>none\<close> its annotation is \<open>null\<close> whatever
  the client sent. On the body of the witness above it strips \<open>temperature\<close> and adds no
  instructions.
\<close>

lemma vendored_none_mode_no_annotation:
  assumes "instructions_mode (resolveAdapterConfig adapterConfig defaultText) = ''none''"
    and "adaptCodexRequestBody_vendored st body isCodexCLI adapterConfig defaultText = (st', Inr r)"
  shows "changes_instructions (result_changes r) = JNull"
  using assms
  by (auto simp: adaptCodexRequestBody_vendored_def instructionStep_vendored_def Let_def
      split: if_splits prod.splits sum.splits json.splits)

lemma vendored_none_mode_example:
  "adaptCodexRequestBody_vendored [JObj [(''temperature'', JNum 1)]] 0 False
       (JObj [(''instructions'', JObj [(''mode'', JStr ''none'')])]) (JStr ''DEFAULT'') =
     ([JObj [(''temperature'', JNum 1)], JObj []],
      Inr \<lparr> result_body = 1, result_applied = True,
        result_changes = \<lparr> strippedFields = [JStr ''temperature''],
          changes_instructions = JNull \<rparr> \<rparr>)"
  by code_simp

subsection \<open>Stop reason and usage\<close>

lemma convertOutputItem_tool_use:
  "list_ex is_tool_use (fst (convertOutputItem parse r item (content, g))) \<longleftrightarrow>
     list_ex is_tool_use content \<or> item_type item = Some ''function_call''"
  by (auto simp: convertOutputItem_def Let_def list_ex_iff split: prod.splits if_splits)

lemma convertOutputItems_tool_use:
  "list_ex is_tool_use (fst (convertOutputItems parse r items (content, g))) \<longleftrightarrow>
     list_ex is_tool_use content \<or>
     list_ex (\<lambda>item. item_type item = Some ''function_call'') items"
proof (induction items arbitrary: content g)
  case Nil
  then show ?case by (simp add: convertOutputItems_def)
next
  case (Cons item items)
  obtain content' g' where step: "convertOutputItem parse r item (content, g) = (content', g')"
    by (cases "convertOutputItem parse r item (content, g)")
  have "convertOutputItems parse r (item # items) (content, g) =
          convertOutputItems parse r items (content', g')"
    by (simp add: convertOutputItems_def step)
  moreover have "list_ex is_tool_use content' \<longleftrightarrow>
      list_ex is_tool_use content \<or> item_type item = Some ''function_call''"
    using convertOutputItem_tool_use[of parse r item content g] step by simp
  ultimately show ?case using Cons.IH[of content' g'] by auto
qed

lemma streamStopReason_spec: "streamStopReason response = spec_stop_reason response"
  by (simp add: streamStopReason_def spec_stop_reason_def isIncompleteMaxOutputTokens_def Let_def)

lemma nonStream_stop_reason_spec:
  "message_stop_reason (fst (convertCodexResponseToAnthropic parse g response m)) =
     spec_stop_reason response"
proof -
  let ?items = "case response_output response of Some xs \<Rightarrow> xs | None \<Rightarrow> []"
  obtain content g1 where run:
    "convertOutputItems parse (reverseToolIdMap m) ?items ([], g) = (content, g1)"
    by (cases "convertOutputItems parse (reverseToolIdMap m) ?items ([], g)")
  have tu: "list_ex is_tool_use content \<longleftrightarrow>
      list_ex (\<lambda>item. item_type item = Some ''function_call'') ?items"
    using convertOutputItems_tool_use[of parse "reverseToolIdMap m" ?items "[]" g] run by simp
  have "message_stop_reason (fst (convertCodexResponseToAnthropic parse g response m)) =
          nonStreamStopReason response content"
    using run by (simp add: convertCodexResponseToAnthropic_def Let_def split: prod.splits)
  also have "\<dots> = spec_stop_reason response"
    using tu
    by (simp add: nonStreamStopReason_def spec_stop_reason_def isIncompleteMaxOutputTokens_def)
  finally show ?thesis .
qed

lemma handleResponseCompleted_res:
  "res (handleResponseCompleted event c) =
     res c @ [MessageDelta (streamStopReason (collectedResponse event))
                \<lparr> usage_input_tokens =
                    usageInputTokens (collectedResponse event) - usageCachedTokens (collectedResponse event),
                  usage_output_tokens = usageOutputTokens (collectedResponse event),
                  usage_cache_creation_input_tokens = 0,
                  usage_cache_read_input_tokens = usageCachedTokens (collectedResponse event) \<rparr>,
              MessageStop]"
  by (simp add: handleResponseCompleted_def collectedResponse_def Let_def writeAnthropicSseEvent_def)

lemma handleResponseCompleted_usage:
  "getUsage (handleResponseCompleted event c) =
     (usageInputTokens (collectedResponse event) - usageCachedTokens (collectedResponse event),
      usageOutputTokens (collectedResponse event),
      usageCachedTokens (collectedResponse event))"
  by (simp add: handleResponseCompleted_def collectedResponse_def Let_def
      writeAnthropicSseEvent_def getUsage_def)

lemma processEvent_completed:
  "event_type event = Some ''response.completed'' \<Longrightarrow>
     processEvent c (Some event) = handleResponseCompleted event c"
  by (simp add: processEvent_def str_or_empty_def)

text \<open>
  Claim C6. For every \<open>response.completed\<close> event, the streaming converter writes a
  \<open>message_delta\<close> whose stop reason is the one the specification derives from the
  payload (\<open>tool_use\<close> whenever an output item is a \<open>function_call\<close>, else \<open>max_tokens\<close>
  for an \<open>incomplete\<close> response with reason \<open>max_output_tokens\<close>, else \<open>end_turn\<close>),
  followed by \<open>message_stop\<close>; and the message the non-streaming translator builds from
  the same payload has the same stop reason.
\<close>

theorem stop_reason_same_in_both_paths:
  assumes "event_type event = Some ''response.completed''"
  shows "(\<exists>u. res (processEvent c (Some event)) =
              res c @ [MessageDelta (spec_stop_reason (collectedResponse event)) u, MessageStop]) \<and>
         message_stop_reason
           (fst (convertCodexResponseToAnthropic parse g (collectedResponse event) m)) =
           spec_stop_reason (collectedResponse event)"
  using assms
  by (simp add: processEvent_completed handleResponseCompleted_res streamStopReason_spec
      nonStream_stop_reason_spec)

theorem stop_reason_same_in_both_paths_witness:
  "event_type scenario_completed = Some ''response.completed'' \<and>
   spec_stop_reason (collectedResponse scenario_completed) = ''tool_use'' \<and>
   (\<exists>u. res (processEvent (newConverter scenario_rng []) (Some scenario_completed)) =
           res (newConverter scenario_rng []) @
             [MessageDelta (spec_stop_reason (collectedResponse scenario_completed)) u, MessageStop]) \<and>
   message_stop_reason
     (fst (convertCodexResponseToAnthropic scenario_parse scenario_rng
             (collectedResponse scenario_completed) [])) =
     spec_stop_reason (collectedResponse scenario_completed)"
proof -
  have h: "event_type scenario_completed = Some ''response.completed''"
    by (simp add: scenario_completed_def scenario_event_def)
  have v: "spec_stop_reason (collectedResponse scenario_completed) = ''tool_use''"
    by code_simp
  from stop_reason_same_in_both_paths [OF h, of "newConverter scenario_rng []" scenario_parse
      scenario_rng "[]"] h v
  show ?thesis by blast
qed

text \<open>
  Claim C2, as the code has it. For every \<open>response.completed\<close> event with upstream
  counts \<open>i\<close> (input), \<open>out\<close> (output) and \<open>k\<close> (cached), each \<open>0\<close> when absent: the
  \<open>message_delta\<close> of the streaming path and the message of the non-streaming path carry
  the usage \<open>input = i - k\<close>, \<open>output = out\<close>, \<open>cache_read = k\<close>, \<open>cache_creation = 0\<close>;
  \<open>getUsage\<close> returns the same three counts; in both paths the sink is handed exactly
  this usage, and it is called when \<open>i - k\<close> or \<open>out\<close> is positive. The reported input is
  non-negative exactly when \<open>k \<le> i\<close>.
\<close>

theorem usage_accounting:
  assumes "event_type event = Some ''response.completed''"
    and "i = usageInputTokens (collectedResponse event)"
    and "out = usageOutputTokens (collectedResponse event)"
    and "k = usageCachedTokens (collectedResponse event)"
    and "reported = \<lparr> usage_input_tokens = i - k, usage_output_tokens = out,
                      usage_cache_creation_input_tokens = 0,
                      usage_cache_read_input_tokens = k \<rparr>"
  shows "(\<exists>stop. res (processEvent c (Some event)) = res c @ [MessageDelta stop reported, MessageStop]) \<and>
         getUsage (processEvent c (Some event)) = (i - k, out, k) \<and>
         streamRecordUsage (processEvent c (Some event)) =
           (if i - k > 0 \<or> out > 0 then Some reported else None) \<and>
         message_usage (fst (convertCodexResponseToAnthropic parse g (collectedResponse event) m)) =
           reported \<and>
         nonStreamRecordUsage (fst (convertCodexResponseToAnthropic parse g (collectedResponse event) m)) =
           (if i - k > 0 \<or> out > 0 then Some reported else None) \<and>
         (0 \<le> usage_input_tokens reported \<longleftrightarrow> k \<le> i)"
proof -
  have m: "message_usage (fst (convertCodexResponseToAnthropic parse g (collectedResponse event) m)) =
           reported"
    using assms(2-5)
    by (simp add: convertCodexResponseToAnthropic_def Let_def split: prod.splits)
  have s: "streamRecordUsage (processEvent c (Some event)) =
           (if i - k > 0 \<or> out > 0 then Some reported else None)"
    using assms
    by (simp add: processEvent_completed streamRecordUsage_def handleResponseCompleted_usage)
  have n: "nonStreamRecordUsage (fst (convertCodexResponseToAnthropic parse g (collectedResponse event) m)) =
           (if i - k > 0 \<or> out > 0 then Some reported else None)"
    unfolding nonStreamRecordUsage_def m using assms(5) by (simp add: Let_def)
  show ?thesis
    using assms m s n
    by (simp add: processEvent_completed handleResponseCompleted_res handleResponseCompleted_usage)
qed

text \<open>The usage of the scenario: 100 input tokens of which 40 cached, 20 output tokens.\<close>

theorem usage_accounting_witness:
  "event_type scenario_completed = Some ''response.completed'' \<and>
   usageInputTokens (collectedResponse scenario_completed) = 100 \<and>
   usageOutputTokens (collectedResponse scenario_completed) = 20 \<and>
   usageCachedTokens (collectedResponse scenario_completed) = 40 \<and>
   getUsage (processEvent (newConverter scenario_rng []) (Some scenario_completed)) = (60, 20, 40) \<and>
   streamRecordUsage (processEvent (newConverter scenario_rng []) (Some scenario_completed)) =
     Some \<lparr> usage_input_tokens = 60, usage_output_tokens = 20,
            usage_cache_creation_input_tokens = 0, usage_cache_read_input_tokens = 40 \<rparr> \<and>
   message_usage (fst (convertCodexResponseToAnthropic scenario_parse scenario_rng
       (collectedResponse scenario_completed) [])) =
     \<lparr> usage_input_tokens = 60, usage_output_tokens = 20,
       usage_cache_creation_input_tokens = 0, usage_cache_read_input_tokens = 40 \<rparr> \<and>
   nonStreamRecordUsage (fst (convertCodexResponseToAnthropic scenario_parse scenario_rng
       (collectedResponse scenario_completed) [])) =
     Some \<lparr> usage_input_tokens = 60, usage_output_tokens = 20,
            usage_cache_creation_input_tokens = 0, usage_cache_read_input_tokens = 40 \<rparr>"
proof -
  have h: "event_type scenario_completed = Some ''response.completed''"
    by (simp add: scenario_completed_def scenario_event_def)
  have i: "(100::int) = usageInputTokens (collectedResponse scenario_completed)" by code_simp
  have out: "(20::int) = usageOutputTokens (collectedResponse scenario_completed)" by code_simp
  have k: "(40::int) = usageCachedTokens (collectedResponse scenario_completed)" by code_simp
  from usage_accounting [OF h i out k refl, of "newConverter scenario_rng []" scenario_parse
      scenario_rng "[]"] h i out k
  show ?thesis by simp
qed

text \<open>
  The claim as stated fails where the upstream reports more cached than input tokens:
  with 10 input tokens, 40 cached tokens and 5 output tokens, both paths report an input
  of \<open>-30\<close>, and both hand it to the sink.
\<close>

theorem usage_negative_when_cached_exceeds_input:
  "getUsage (processEvent (newConverter scenario_rng [])
      (Some ((scenario_event ''response.completed'')
         \<lparr>event_response := Some (scenario_response
            \<lparr>response_usage := Some \<lparr> input_tokens = Some 10, output_tokens = Some 5,
               input_tokens_details = Some \<lparr> cached_tokens = Some 40 \<rparr> \<rparr>\<rparr>)\<rparr>))) =
     (- 30, 5, 40) \<and>
   streamRecordUsage (processEvent (newConverter scenario_rng [])
      (Some ((scenario_event ''response.completed'')
         \<lparr>event_response := Some (scenario_response
            \<lparr>response_usage := Some \<lparr> input_tokens = Some 10, output_tokens = Some 5,
               input_tokens_details = Some \<lparr> cached_tokens = Some 40 \<rparr> \<rparr>\<rparr>)\<rparr>))) =
     Some \<lparr> usage_input_tokens = - 30, usage_output_tokens = 5,
            usage_cache_creation_input_tokens = 0, usage_cache_read_input_tokens = 40 \<rparr> \<and>
   message_usage (fst (convertCodexResponseToAnthropic scenario_parse scenario_rng
      (scenario_response
         \<lparr>response_usage := Some \<lparr> input_tokens = Some 10, output_tokens = Some 5,
            input_tokens_details = Some \<lparr> cached_tokens = Some 40 \<rparr> \<rparr>\<rparr>) [])) =
     \<lparr> usage_input_tokens = - 30, usage_output_tokens = 5,
       usage_cache_creation_input_tokens = 0, usage_cache_read_input_tokens = 40 \<rparr> \<and>
   \<not> (0::int) \<le> - 30"
  by code_simp

subsection \<open>Order of the client's events\<close>

lemma processEvent_step:
  "\<exists>xs. res (processEvent c ev) = res c @ xs \<and>
     (messageStartSent (processEvent c ev) \<longleftrightarrow> messageStartSent c \<or> list_ex is_message_start xs) \<and>
     (list_ex is_message_start xs \<longrightarrow>
        \<not> messageStartSent c \<and> is_message_start (hd xs) \<and> \<not> list_ex is_message_start (tl xs)) \<and>
     (list_ex is_content_block_start xs \<longrightarrow> messageStartSent c \<or> is_message_start (hd xs)) \<and>
     (ensures_message_start ev \<longrightarrow> messageStartSent (processEvent c ev))"
proof (cases ev)
  case None
  then show ?thesis by (simp add: processEvent_def ensures_message_start_def)
next
  case (Some event)
  show ?thesis
    unfolding Some processEvent_def Let_def ensures_message_start_def
    by (auto simp: ensureMessageStart_def writeAnthropicSseEvent_def
        handleOutputItemAdded_def handleReasoningSummaryPartAdded_def
        handleReasoningSummaryTextDelta_def handleContentPartAdded_def
        handleOutputTextDelta_def handleFunctionCallArgumentsDelta_def
        handleBlockStop_def handleOutputItemDone_def handleResponseCompleted_def
        str_or_empty_def Let_def
        split: option.splits prod.splits if_splits)
qed

lemma processEvents_snoc: "processEvents c (evs @ [ev]) = processEvent (processEvents c evs) ev"
  by (simp add: processEvents_def)

lemma processEvents_append:
  "processEvents c (pre @ post) = processEvents (processEvents c pre) post"
  by (simp add: processEvents_def)

lemma processEvents_res_grows: "\<exists>more. res (processEvents c evs) = res c @ more"
proof (induction evs rule: rev_induct)
  case Nil
  then show ?case by (simp add: processEvents_def)
next
  case (snoc ev evs)
  then obtain more where m: "res (processEvents c evs) = res c @ more" by blast
  from processEvent_step[of "processEvents c evs" ev] obtain xs where
    "res (processEvent (processEvents c evs) ev) = res (processEvents c evs) @ xs" by blast
  with m show ?case by (simp add: processEvents_snoc)
qed

lemma processEvents_ensured:
  "list_ex ensures_message_start evs \<Longrightarrow> messageStartSent (processEvents c evs)"
proof (induction evs rule: rev_induct)
  case Nil
  then show ?case by simp
next
  case (snoc ev evs)
  show ?case
  proof (cases "ensures_message_start ev")
    case True
    with processEvent_step[of "processEvents c evs" ev] show ?thesis
      by (auto simp: processEvents_snoc)
  next
    case False
    with snoc.prems have "list_ex ensures_message_start evs" by simp
    from snoc.IH[OF this] processEvent_step[of "processEvents c evs" ev] show ?thesis
      by (auto simp: processEvents_snoc)
  qed
qed

text \<open>
  The invariant of a stream: the flag \<open>messageStartSent\<close> says whether a \<open>message_start\<close>
  has been written, at most one has been, and every \<open>content_block_start\<close> has a
  \<open>message_start\<close> before it.
\<close>

lemma stream_invariant:
  assumes "res c0 = []" and "\<not> messageStartSent c0"
  shows "(messageStartSent (processEvents c0 evs) \<longleftrightarrow>
            list_ex is_message_start (res (processEvents c0 evs))) \<and>
         length (filter is_message_start (res (processEvents c0 evs))) \<le> 1 \<and>
         (\<forall>i < length (res (processEvents c0 evs)).
            is_content_block_start (res (processEvents c0 evs) ! i) \<longrightarrow>
            (\<exists>j < i. is_message_start (res (processEvents c0 evs) ! j)))"
proof (induction evs rule: rev_induct)
  case Nil
  with assms show ?case by (simp add: processEvents_def)
next
  case (snoc ev evs)
  let ?c = "processEvents c0 evs"
  let ?c' = "processEvent ?c ev"
  from snoc have
    i1: "messageStartSent ?c \<longleftrightarrow> list_ex is_message_start (res ?c)" and
    i2: "length (filter is_message_start (res ?c)) \<le> 1" and
    i3: "\<forall>i < length (res ?c). is_content_block_start (res ?c ! i) \<longrightarrow>
            (\<exists>j < i. is_message_start (res ?c ! j))"
    by blast+
  from processEvent_step[of ?c ev] obtain xs where
    r: "res ?c' = res ?c @ xs" and
    s1: "messageStartSent ?c' \<longleftrightarrow> messageStartSent ?c \<or> list_ex is_message_start xs" and
    s2: "list_ex is_message_start xs \<longrightarrow>
        \<not> messageStartSent ?c \<and> is_message_start (hd xs) \<and> \<not> list_ex is_message_start (tl xs)" and
    s3: "list_ex is_content_block_start xs \<longrightarrow> messageStartSent ?c \<or> is_message_start (hd xs)"
    by blast
  have j1: "messageStartSent ?c' \<longleftrightarrow> list_ex is_message_start (res ?c')"
    using s1 i1 r by (auto simp: list_ex_iff)
  have j2: "length (filter is_message_start (res ?c')) \<le> 1"
  proof (cases "list_ex is_message_start xs")
    case False
    then have "filter is_message_start xs = []" by (auto simp: list_ex_iff filter_empty_conv)
    with i2 r show ?thesis by simp
  next
    case True
    with s2 have ns: "\<not> messageStartSent ?c" and h: "is_message_start (hd xs)"
      and t: "\<not> list_ex is_message_start (tl xs)" by blast+
    from True have ne: "xs \<noteq> []" by auto
    from ns i1 have "filter is_message_start (res ?c) = []"
      by (auto simp: list_ex_iff filter_empty_conv)
    moreover have "filter is_message_start xs = [hd xs]"
    proof -
      from ne have "xs = hd xs # tl xs" by simp
      then have "filter is_message_start xs = filter is_message_start (hd xs # tl xs)" by simp
      also have "\<dots> = hd xs # filter is_message_start (tl xs)" using h by simp
      also have "filter is_message_start (tl xs) = []"
        using t by (auto simp: list_ex_iff filter_empty_conv)
      finally show ?thesis .
    qed
    ultimately show ?thesis using r by simp
  qed
  have j3: "\<forall>i < length (res ?c'). is_content_block_start (res ?c' ! i) \<longrightarrow>
            (\<exists>j < i. is_message_start (res ?c' ! j))"
  proof (intro allI impI)
    fix i assume lt: "i < length (res ?c')" and cb: "is_content_block_start (res ?c' ! i)"
    show "\<exists>j < i. is_message_start (res ?c' ! j)"
    proof (cases "i < length (res ?c)")
      case True
      with cb r have "is_content_block_start (res ?c ! i)" by (simp add: nth_append)
      with i3 True obtain j where j: "j < i" "is_message_start (res ?c ! j)" by blast
      from j True have "j < length (res ?c)" by simp
      then have "res ?c' ! j = res ?c ! j" using r by (simp add: nth_append)
      with j show ?thesis by metis
    next
      case False
      let ?k = "i - length (res ?c)"
      from False lt r have k: "?k < length xs" by simp
      from False cb r have cbk: "is_content_block_start (xs ! ?k)" by (simp add: nth_append)
      with k have "list_ex is_content_block_start xs" by (auto simp: list_ex_iff)
      with s3 consider "messageStartSent ?c" | "is_message_start (hd xs)" by blast
      then show ?thesis
      proof cases
        case 1
        with i1 have "\<exists>e \<in> set (res ?c). is_message_start e" by (simp add: list_ex_iff)
        then obtain j where j: "j < length (res ?c)" "is_message_start (res ?c ! j)"
          by (metis in_set_conv_nth)
        from j have "res ?c' ! j = res ?c ! j" using r by (simp add: nth_append)
        moreover from j False have "j < i" by simp
        ultimately show ?thesis using j by metis
      next
        case 2
        from k have ne: "xs \<noteq> []" by auto
        with 2 have h0: "is_message_start (xs ! 0)" by (simp add: hd_conv_nth)
        have "?k \<noteq> 0"
        proof
          assume "?k = 0"
          with cbk h0 show False by (cases "xs ! 0") simp_all
        qed
        with False have "length (res ?c) < i" by simp
        moreover have "is_message_start (res ?c' ! length (res ?c))"
          using r h0 ne by (simp add: nth_append)
        ultimately show ?thesis by blast
      qed
    qed
  qed
  from j1 j2 j3 show ?case by (simp only: processEvents_snoc)
qed

lemma newConverter_fresh: "res (newConverter g m) = [] \<and> \<not> messageStartSent (newConverter g m)"
  by (simp add: newConverter_def Let_def split: prod.splits)

text \<open>
  The delta and stop handlers do not call \<open>_ensureMessageStart\<close>: in whatever state the
  converter is, they leave the flag as it is and write content-block events only.
\<close>

lemma delta_handlers_write_no_message_start:
  "messageStartSent (handleReasoningSummaryTextDelta event c) = messageStartSent c \<and>
   (\<exists>ws. res (handleReasoningSummaryTextDelta event c) = res c @ ws \<and>
         list_all is_content_block ws \<and> \<not> list_ex is_message_start ws)"
  "messageStartSent (handleOutputTextDelta event c) = messageStartSent c \<and>
   (\<exists>ws. res (handleOutputTextDelta event c) = res c @ ws \<and>
         list_all is_content_block ws \<and> \<not> list_ex is_message_start ws)"
  "messageStartSent (handleFunctionCallArgumentsDelta event c) = messageStartSent c \<and>
   (\<exists>ws. res (handleFunctionCallArgumentsDelta event c) = res c @ ws \<and>
         list_all is_content_block ws \<and> \<not> list_ex is_message_start ws)"
  by (simp_all add: handleReasoningSummaryTextDelta_def handleOutputTextDelta_def
      handleFunctionCallArgumentsDelta_def writeAnthropicSseEvent_def Let_def)

lemma stop_handlers_write_no_message_start:
  "messageStartSent (handleBlockStop c) = messageStartSent c \<and>
   (\<exists>ws. res (handleBlockStop c) = res c @ ws \<and>
         list_all is_content_block ws \<and> \<not> list_ex is_message_start ws)"
  "messageStartSent (handleOutputItemDone event c) = messageStartSent c \<and>
   (\<exists>ws. res (handleOutputItemDone event c) = res c @ ws \<and>
         list_all is_content_block ws \<and> \<not> list_ex is_message_start ws)"
  by (simp_all add: handleBlockStop_def handleOutputItemDone_def writeAnthropicSseEvent_def
      Let_def split: option.splits)

lemma processEvent_dispatch:
  "event_type event = Some ''response.reasoning_summary_text.delta'' \<Longrightarrow>
     processEvent c (Some event) = handleReasoningSummaryTextDelta event c"
  "event_type event = Some ''response.output_text.delta'' \<Longrightarrow>
     processEvent c (Some event) = handleOutputTextDelta event c"
  "event_type event = Some ''response.function_call_arguments.delta'' \<Longrightarrow>
     processEvent c (Some event) = handleFunctionCallArgumentsDelta event c"
  "event_type event = Some ''response.reasoning_summary_part.done'' \<Longrightarrow>
     processEvent c (Some event) = handleBlockStop c"
  "event_type event = Some ''response.content_part.done'' \<Longrightarrow>
     processEvent c (Some event) = handleBlockStop c"
  "event_type event = Some ''response.output_item.done'' \<Longrightarrow>
     processEvent c (Some event) = handleOutputItemDone event c"
  by (simp_all add: processEvent_def str_or_empty_def)

lemma processEvent_delta_or_stop:
  assumes "delta_or_stop ev"
  shows "messageStartSent (processEvent c ev) = messageStartSent c \<and>
         (\<exists>ws. res (processEvent c ev) = res c @ ws \<and> list_all is_content_block ws \<and>
               \<not> list_ex is_message_start ws)"
proof -
  from assms obtain event where ev: "ev = Some event" and
    t: "event_type event \<in> {Some ''response.reasoning_summary_text.delta'',
            Some ''response.output_text.delta'', Some ''response.function_call_arguments.delta'',
            Some ''response.reasoning_summary_part.done'', Some ''response.content_part.done'',
            Some ''response.output_item.done''}"
    by (cases ev) (simp_all add: delta_or_stop_def)
  from t consider
      "event_type event = Some ''response.reasoning_summary_text.delta''"
    | "event_type event = Some ''response.output_text.delta''"
    | "event_type event = Some ''response.function_call_arguments.delta''"
    | "event_type event = Some ''response.reasoning_summary_part.done''"
    | "event_type event = Some ''response.content_part.done''"
    | "event_type event = Some ''response.output_item.done''"
    by blast
  then show ?thesis
  proof cases
    case 1
    from processEvent_dispatch(1)[OF 1] delta_handlers_write_no_message_start(1) show ?thesis
      unfolding ev by simp
  next
    case 2
    from processEvent_dispatch(2)[OF 2] delta_handlers_write_no_message_start(2) show ?thesis
      unfolding ev by simp
  next
    case 3
    from processEvent_dispatch(3)[OF 3] delta_handlers_write_no_message_start(3) show ?thesis
      unfolding ev by simp
  next
    case 4
    from processEvent_dispatch(4)[OF 4] stop_handlers_write_no_message_start(1) show ?thesis
      unfolding ev by simp
  next
    case 5
    from processEvent_dispatch(5)[OF 5] stop_handlers_write_no_message_start(1) show ?thesis
      unfolding ev by simp
  next
    case 6
    from processEvent_dispatch(6)[OF 6] stop_handlers_write_no_message_start(2) show ?thesis
      unfolding ev by simp
  qed
qed

text \<open>
  Claim C1, as the code has it. Whatever events the converter of a request is fed, its
  stream holds at most one \<open>message_start\<close>, and every \<open>content_block_start\<close> has the
  \<open>message_start\<close> before it. Once an event whose handler ensures the message start
  (\<open>response.created\<close>, \<open>response.output_item.added\<close>,
  \<open>response.reasoning_summary_part.added\<close>, \<open>response.content_part.added\<close>) has been
  processed, the \<open>message_start\<close> stands in the stream written so far, hence before
  everything written for the events that follow, \<open>content_block_delta\<close> and
  \<open>content_block_stop\<close> included. The delta and stop handlers themselves never emit
  it: in whatever state the converter is, a delta or done event leaves the flag
  \<open>messageStartSent\<close> as it is and adds content-block events only to the stream.
\<close>

theorem message_start_once_before_block_starts:
  "length (filter is_message_start (res (processEvents (newConverter g m) evs))) \<le> 1 \<and>
   (\<forall>i < length (res (processEvents (newConverter g m) evs)).
      is_content_block_start (res (processEvents (newConverter g m) evs) ! i) \<longrightarrow>
      (\<exists>j < i. is_message_start (res (processEvents (newConverter g m) evs) ! j))) \<and>
   (\<forall>pre post. evs = pre @ post \<and> list_ex ensures_message_start pre \<longrightarrow>
      take (length (res (processEvents (newConverter g m) pre)))
        (res (processEvents (newConverter g m) evs)) = res (processEvents (newConverter g m) pre) \<and>
      (\<exists>j < length (res (processEvents (newConverter g m) pre)).
         is_message_start (res (processEvents (newConverter g m) evs) ! j))) \<and>
   (\<forall>c ev. delta_or_stop ev \<longrightarrow>
      messageStartSent (processEvent c ev) = messageStartSent c \<and>
      (\<exists>ws. res (processEvent c ev) = res c @ ws \<and> list_all is_content_block ws \<and>
            \<not> list_ex is_message_start ws))"
proof -
  let ?c0 = "newConverter g m"
  from newConverter_fresh[of g m] have f: "res ?c0 = []" "\<not> messageStartSent ?c0" by simp_all
  note inv = stream_invariant[OF f]
  have pre: "take (length (res (processEvents ?c0 pre))) (res (processEvents ?c0 evs)) =
               res (processEvents ?c0 pre) \<and>
             (\<exists>j < length (res (processEvents ?c0 pre)).
                is_message_start (res (processEvents ?c0 evs) ! j))"
    if split: "evs = pre @ post" and ens: "list_ex ensures_message_start pre" for pre post
  proof -
    from processEvents_res_grows[of "processEvents ?c0 pre" post] obtain more where
      g: "res (processEvents ?c0 evs) = res (processEvents ?c0 pre) @ more"
      by (auto simp: split processEvents_append)
    from processEvents_ensured[OF ens] have "messageStartSent (processEvents ?c0 pre)" .
    with inv[of pre] have "\<exists>e \<in> set (res (processEvents ?c0 pre)). is_message_start e"
      by (simp add: list_ex_iff)
    then obtain j where j: "j < length (res (processEvents ?c0 pre))"
      "is_message_start (res (processEvents ?c0 pre) ! j)"
      by (metis in_set_conv_nth)
    then have "res (processEvents ?c0 evs) ! j = res (processEvents ?c0 pre) ! j"
      using g by (simp add: nth_append)
    with j have "\<exists>j < length (res (processEvents ?c0 pre)).
                is_message_start (res (processEvents ?c0 evs) ! j)" by metis
    moreover have "take (length (res (processEvents ?c0 pre))) (res (processEvents ?c0 evs)) =
               res (processEvents ?c0 pre)" using g by simp
    ultimately show ?thesis by blast
  qed
  from inv[of evs] pre processEvent_delta_or_stop show ?thesis by blast
qed

text \<open>
  The scenario of the specification: the stream the client receives, with the
  \<open>message_start\<close> first and the \<open>content_block_start\<close> of the tool call second.
\<close>

lemma scenario_stream:
  "res (processEvents (newConverter scenario_rng []) scenario_events) =
     [MessageStart ''msg_00000000000000000000000000000000'' ''claude-sonnet-4-20250514''
        \<lparr> usage_input_tokens = 0, usage_output_tokens = 0,
          usage_cache_creation_input_tokens = 0, usage_cache_read_input_tokens = 0 \<rparr>,
      ContentBlockStart 0
        (ToolUse (JStr ''toolu_000000000000000000000000'') (Some ''run'') (JObj [])),
      ContentBlockDelta 0 (InputJsonDelta ''{\"x\":''),
      ContentBlockDelta 0 (InputJsonDelta ''1}''),
      ContentBlockStop 0,
      MessageDelta ''tool_use''
        \<lparr> usage_input_tokens = 60, usage_output_tokens = 20,
          usage_cache_creation_input_tokens = 0, usage_cache_read_input_tokens = 40 \<rparr>,
      MessageStop]"
  by code_simp

theorem message_start_once_before_block_starts_witness:
  "(1::nat) < length (res (processEvents (newConverter scenario_rng []) scenario_events)) \<and>
   is_content_block_start (res (processEvents (newConverter scenario_rng []) scenario_events) ! 1) \<and>
   length (filter is_message_start
     (res (processEvents (newConverter scenario_rng []) scenario_events))) \<le> 1 \<and>
   (\<exists>j < 1. is_message_start
     (res (processEvents (newConverter scenario_rng []) scenario_events) ! j)) \<and>
   scenario_events = [hd scenario_events] @ tl scenario_events \<and>
   list_ex ensures_message_start [hd scenario_events] \<and>
   (\<exists>j < length (res (processEvents (newConverter scenario_rng []) [hd scenario_events])).
      is_message_start (res (processEvents (newConverter scenario_rng []) scenario_events) ! j)) \<and>
   delta_or_stop (Some ((scenario_event ''response.output_text.delta'')
                          \<lparr>event_delta := Some ''hi''\<rparr>)) \<and>
   \<not> messageStartSent
       (processEvent (newConverter scenario_rng [])
          (Some ((scenario_event ''response.output_text.delta'')\<lparr>event_delta := Some ''hi''\<rparr>)))"
proof -
  let ?out = "res (processEvents (newConverter scenario_rng []) scenario_events)"
  let ?delta = "Some ((scenario_event ''response.output_text.delta'')\<lparr>event_delta := Some ''hi''\<rparr>)"
  have d: "delta_or_stop ?delta" by (simp add: delta_or_stop_def scenario_event_def)
  have n: "\<not> messageStartSent (newConverter scenario_rng [])"
    by (simp add: newConverter_fresh)
  have l: "(1::nat) < length ?out" by (simp add: scenario_stream)
  have b: "is_content_block_start (?out ! 1)" by (simp add: scenario_stream)
  have s: "scenario_events = [hd scenario_events] @ tl scenario_events"
    by (simp add: scenario_events_def)
  have e: "list_ex ensures_message_start [hd scenario_events]"
    by (simp add: scenario_events_def scenario_event_def ensures_message_start_def)
  from message_start_once_before_block_starts [of scenario_rng "[]" scenario_events] l b s e d n
  show ?thesis by blast
qed

text \<open>
  The claim as stated fails for the delta and stop events, whose handlers do not ensure the
  message start: when a text delta arrives before \<open>response.created\<close>, the
  \<open>content_block_delta\<close> is written first and the \<open>message_start\<close> after it.
\<close>

theorem delta_written_before_message_start:
  "res (processEvents (newConverter scenario_rng [])
     [Some ((scenario_event ''response.output_text.delta'')\<lparr>event_delta := Some ''hi''\<rparr>),
      Some (scenario_event ''response.created'')]) =
     [ContentBlockDelta 0 (TextDelta ''hi''),
      MessageStart ''msg_00000000000000000000000000000000'' ''claude-sonnet-4-20250514''
        \<lparr> usage_input_tokens = 0, usage_output_tokens = 0,
          usage_cache_creation_input_tokens = 0, usage_cache_read_input_tokens = 0 \<rparr>]"
  by code_simp

subsection \<open>Request translation\<close>










lemma push_input: "codex_input (push item st) = codex_input st @ [item]"
  and push_ids: "tool_ids (push item st) = tool_ids st"
  by (simp_all add: push_def)

























text \<open>The round trip of the specification, evaluated.\<close>

lemma scenario_translation:
  "(case convertMessagesToCodexInput scenario_stringify scenario_rng scenario_messages of
      Inl e \<Rightarrow> False
    | Inr st \<Rightarrow>
        codex_input st =
          [function_call_item ''call_000000000000000000000000'' (JStr ''run'') (JStr ''{\"x\":1}''),
           function_call_output_item (JStr ''call_000000000000000000000000'') ''done''] \<and>
        tool_ids st = [(JStr ''toolu_I'', ''call_000000000000000000000000'')])"
  by code_simp



text \<open>
  With the same id in two \<open>tool_use\<close> blocks, the tool result is paired with the later
  one. The entropy of the scenario gives both calls the same identifier; the names tell
  the two items apart.
\<close>

lemma repeated_id_pairs_with_latest_call:
  "mapGet
     (case convertMessagesToCodexInput scenario_stringify
             \<lparr> tape = (\<lambda>i. if i < 12 then 1 else 2), cursor = 0 \<rparr>
         (JArr [JObj [(''role'', JStr ''assistant''),
                      (''content'',
                       JArr [JObj [(''type'', JStr ''tool_use''), (''id'', JStr ''toolu_I''),
                                   (''name'', JStr ''first'')],
                             JObj [(''type'', JStr ''tool_use''), (''id'', JStr ''toolu_I''),
                                   (''name'', JStr ''second'')]])]]) of
        Inl e \<Rightarrow> []
      | Inr st \<Rightarrow> tool_ids st) (JStr ''toolu_I'') =
     Some ''call_020202020202020202020202''"
  by code_simp



text \<open>
  It fails as well on a tool result whose text has no string form: no part of the
  request is \<open>null\<close>, and \<open>join\<close> throws on the text \<open>{toString: 1}\<close>. A \<open>null\<close> block
  in a turn that is neither a user nor an assistant turn is not read, and does no harm.
\<close>

lemma text_without_string_form_makes_translation_throw:
  "convertMessagesToCodexInput scenario_stringify scenario_rng
     (JArr [JObj [(''role'', JStr ''user''),
                  (''content'',
                   JArr [JObj [(''type'', JStr ''tool_result''), (''tool_use_id'', JStr ''toolu_I''),
                               (''content'',
                                JArr [JObj [(''type'', JStr ''text''),
                                            (''text'', JObj [(''toString'', JNum 1)])]])]])]]) =
     Inl TypeError"
  by (simp add: convertMessagesToCodexInput_def iterate_def convertMessage_def get_def
      normalizeContent_def convertUserBlock_def toolResultText_def arrayJoin_def js_or_def
      mapGet_def)

lemma null_block_of_other_role_is_not_read:
  "readable_messages (JArr [JObj [(''role'', JStr ''system''), (''content'', JArr [JNull])]])"
  by code_simp

end
